theory Spec2Isabelle
  imports Complex_Main "HOL-Library.Stream"
begin

section \<open>Adversarial communication strategy simulator: the engine of app.js\<close>

text \<open>
  The embedding follows \<^verbatim>\<open>src/app.js\<close>. JavaScript numbers are modelled as exact
  reals (integers where the source only ever holds integers: bins, slots, indices, the tick
  counter). The only non-numeric values that are tracked are the ones a value table can
  hold or yield: \<^verbatim>\<open>undefined\<close>, read from an index past the end of an array, and the
  \<^verbatim>\<open>NaN\<close> that arithmetic on it produces. \<^verbatim>\<open>Math.random()\<close> is an explicit stream of
  draws that the functions consume in the order the source calls it. The engine's
  \<open>stepSimulation\<close> takes the configuration as an argument; \<open>stepSimulation_page\<close> is the
  function as the page calls it, with \<^verbatim>\<open>readSettings\<close> on the \<^verbatim>\<open>dom\<close> references in front.
  Drawing on the canvas and the chart are left out.

  Where the reals and the source's floating-point numbers part: \<^verbatim>\<open>Math.log2\<close> and
  \<^verbatim>\<open>Math.log10\<close> are \<open>log 2\<close> and \<open>log 10\<close>, which agree with them on positive arguments
  only, and a quotient whose denominator is 0 is 0 here and an infinity or NaN in the source.
  The two denominators of a tick are \<open>noisePower + interference + 1\<close>; the one of
  \<^verbatim>\<open>computeOverlap\<close> is never 0 where it is reached. The statements below do not rest on
  the value at such a point: one that mentions a logarithm or a quotient holds for any
  value of it. A random index \<open>\<lfloor>u * n\<rfloor>\<close> is taken of the exact product, where the source
  rounds the product to a double first: a product that is not a double and lies within a
  relative \<open>1 / 2 ^ 53\<close> of an integer can round to it, and the source's index is then the
  neighbouring one. The index stays inside the table either way, and the draws whose index
  is named below (\<open>1 / 2\<close> and \<open>129 / 256\<close>) have products that are doubles.
\<close>

subsection \<open>Constants and action spaces\<close>

definition BINS :: int where
  "BINS = 48"

definition TX_FREQ_SLOTS :: int where
  "TX_FREQ_SLOTS = 12"

datatype modulation = BPSK | QPSK | QAM16

definition MODS :: "modulation list" where
  "MODS = [BPSK, QPSK, QAM16]"

fun MOD_EFF :: "modulation \<Rightarrow> real" where
  "MOD_EFF BPSK = 1"
| "MOD_EFF QPSK = 2"
| "MOD_EFF QAM16 = 4"

definition TX_POWER_LEVELS :: "real list" where
  "TX_POWER_LEVELS = [0.45, 0.72, 1.0]"

definition JAM_POWER_LEVELS :: "real list" where
  "JAM_POWER_LEVELS = [0.35, 0.65, 1.0]"

definition JAM_SPANS :: "real list" where
  "JAM_SPANS = [2, 4, 8, 12]"

definition HISTORY_POINTS :: nat where
  "HISTORY_POINTS = 180"

record action =
  fSlot :: int
  p :: real

record tx_action = action +
  mod' :: modulation

record jam_action = action +
  span' :: real

text \<open>\<^verbatim>\<open>{ ...txAct, txBin }\<close> and \<^verbatim>\<open>{ ...jamAct, jamCenter, spanBins }\<close>.\<close>

record tx_last = tx_action +
  txBin :: int

record jam_last = jam_action +
  jamCenter :: int
  spanBins :: real

definition buildActionSpace :: "tx_action list" where
  "buildActionSpace =
     concat (map (\<lambda>f. concat (map (\<lambda>m. map (\<lambda>pw. \<lparr>fSlot = f, p = pw, mod' = m\<rparr>)
        TX_POWER_LEVELS) MODS)) [0 ..  TX_FREQ_SLOTS - 1])"

definition buildJamActions :: "jam_action list" where
  "buildJamActions =
     concat (map (\<lambda>f. concat (map (\<lambda>sp. map (\<lambda>pw. \<lparr>fSlot = f, p = pw, span' = sp\<rparr>)
        JAM_POWER_LEVELS) JAM_SPANS)) [0 ..  TX_FREQ_SLOTS - 1])"

definition TX_ACTIONS :: "tx_action list" where
  "TX_ACTIONS = buildActionSpace"

definition JAM_ACTIONS :: "jam_action list" where
  "JAM_ACTIONS = buildJamActions"

subsection \<open>Values of a table cell\<close>

datatype jsval = Num real | NaN | Undefined

text \<open>\<^verbatim>\<open>ToNumber\<close>: \<open>None\<close> stands for NaN.\<close>

fun to_num :: "jsval \<Rightarrow> real option" where
  "to_num (Num x) = Some x"
| "to_num NaN = None"
| "to_num Undefined = None"

definition js_arith :: "(real \<Rightarrow> real \<Rightarrow> real) \<Rightarrow> jsval \<Rightarrow> jsval \<Rightarrow> jsval" where
  "js_arith f a b =
     (case to_num a of None \<Rightarrow> NaN
      | Some x \<Rightarrow> (case to_num b of None \<Rightarrow> NaN | Some y \<Rightarrow> Num (f x y)))"

text \<open>\<^verbatim>\<open>a > b\<close>: false as soon as one side is NaN.\<close>

definition js_gt :: "jsval \<Rightarrow> jsval \<Rightarrow> bool" where
  "js_gt a b =
     (case to_num a of None \<Rightarrow> False
      | Some x \<Rightarrow> (case to_num b of None \<Rightarrow> False | Some y \<Rightarrow> x > y))"

text \<open>Reading past the end gives \<^verbatim>\<open>undefined\<close>; writing past the end extends the array.\<close>

definition js_get :: "jsval list \<Rightarrow> nat \<Rightarrow> jsval" where
  "js_get xs i = (if i < length xs then xs ! i else Undefined)"

definition js_set :: "jsval list \<Rightarrow> nat \<Rightarrow> jsval \<Rightarrow> jsval list" where
  "js_set xs i v =
     (if i < length xs then xs[i := v]
      else xs @ replicate (i - length xs) Undefined @ [v])"

definition set_length :: "jsval list \<Rightarrow> nat \<Rightarrow> jsval list" where
  "set_length xs n = take n xs @ replicate (n - length xs) Undefined"

definition initQ :: "jsval list \<Rightarrow> nat \<Rightarrow> jsval list" where
  "initQ table size' = fold (\<lambda>i tb. js_set tb i (Num 0)) [0 ..< size'] (set_length table size')"

definition argMax :: "jsval list \<Rightarrow> nat" where
  "argMax arr =
     fold (\<lambda>i best. if js_gt (js_get arr i) (js_get arr best) then i else best)
       [1 ..< length arr] 0"

text \<open>
  \<^verbatim>\<open>pickAction\<close> draws once for the exploration test and, only when that test succeeds, a
  second time for the index.
\<close>

definition pickAction :: "jsval list \<Rightarrow> real \<Rightarrow> real stream \<Rightarrow> nat \<times> real stream" where
  "pickAction qt e rnd =
     (if shd rnd < e
      then (nat \<lfloor>shd (stl rnd) * real (length qt)\<rfloor>, stl (stl rnd))
      else (argMax qt, stl rnd))"

definition linToDb :: "real \<Rightarrow> real" where
  "linToDb x = 10 * log 10 x"

definition dbToLin :: "real \<Rightarrow> real" where
  "dbToLin db = 10 powr (db / 10)"

subsection \<open>Channel model\<close>

definition mapFreqSlotToBin :: "int \<Rightarrow> int" where
  "mapFreqSlotToBin slot =
     (let binsPerSlot = BINS div TX_FREQ_SLOTS;
          base = slot * binsPerSlot
      in min (BINS - 1) (base + binsPerSlot div 2))"

definition computeOverlap :: "int \<Rightarrow> int \<Rightarrow> real \<Rightarrow> real" where
  "computeOverlap tb jc sb =
     (let half = \<lfloor>sb / 2\<rfloor>;
          start = max 0 (jc - half);
          end' = min (BINS - 1) (jc + half)
      in if tb < start \<or> tb > end' then 0
         else (let dist = \<bar>tb - jc\<bar> + 1
               in max 0 (1 - real_of_int dist / real_of_int (half + 1))))"


subsection \<open>Configuration, agents and simulation state\<close>

text \<open>The object \<^verbatim>\<open>readSettings\<close> returns.\<close>

record config =
  snrDb :: real
  bwMHz :: real
  noiseDensity :: real
  jamMaxPower :: real
  jamMaxSpan :: real
  txMaxPower :: real
  cfg_lr :: real
  cfg_eps :: real
  freeze :: bool
  cfg_jamAdaptive :: bool

record 'a agent =
  q :: "jsval list"
  eps :: real
  lr :: real
  lastAction :: "'a option"

record hist_entry =
  h_t :: nat
  h_throughputMbps :: real
  h_jammingIntensity :: real
  h_sinrDb :: real
  h_overlapFactor :: real
  h_tx :: tx_last
  h_jam :: jam_last

record sim_state =
  t :: nat
  paused :: bool
  freezeLearning :: bool
  jamAdaptive :: bool
  tx :: "tx_last agent"
  jam :: "jam_last agent"
  history :: "hist_entry list"

text \<open>The value of \<^verbatim>\<open>state\<close> when the script is loaded, before any reset.\<close>

definition initial_state :: sim_state where
  "initial_state =
     \<lparr>t = 0, paused = False, freezeLearning = False, jamAdaptive = True,
      tx = \<lparr>q = [], eps = 0.08, lr = 0.18, lastAction = None\<rparr>,
      jam = \<lparr>q = [], eps = 0.12, lr = 0.14, lastAction = None\<rparr>,
      history = []\<rparr>"

definition resetSimulation :: "sim_state \<Rightarrow> sim_state" where
  "resetSimulation s =
     s\<lparr>t := 0,
       tx := (tx s)\<lparr>q := initQ (q (tx s)) (length TX_ACTIONS)\<rparr>,
       jam := (jam s)\<lparr>q := initQ (q (jam s)) (length JAM_ACTIONS)\<rparr>,
       history := [],
       paused := False\<rparr>"

subsection \<open>One tick\<close>

text \<open>The constants that \<^verbatim>\<open>stepSimulation\<close> computes between the two selections and the update.\<close>

record outcome =
  o_txBin :: int
  o_jamCenter :: int
  o_jamSpanBins :: real
  o_snrLin :: real
  o_bwHz :: real
  o_noisePower :: real
  o_txPower :: real
  o_jamPower :: real
  o_overlapFactor :: real
  o_interference :: real
  o_signal :: real
  o_sinr :: real
  o_spectralEff :: real
  o_throughputMbps :: real
  o_jammingIntensity :: real
  o_txReward :: real
  o_jamReward :: real

definition evaluate :: "config \<Rightarrow> tx_action \<Rightarrow> jam_action \<Rightarrow> outcome" where
  "evaluate cfg txAct jamAct =
     (let txBin1 = mapFreqSlotToBin (fSlot txAct);
          jamCenter1 = mapFreqSlotToBin (fSlot jamAct);
          jamSpanBins = min (span' jamAct) (jamMaxSpan cfg);
          snrLin = dbToLin (snrDb cfg);
          bwHz = bwMHz cfg * 1000000;
          noisePower = noiseDensity cfg * bwHz;
          txPower = txMaxPower cfg * p txAct;
          jamPower = jamMaxPower cfg * p jamAct;
          overlapFactor = computeOverlap txBin1 jamCenter1 jamSpanBins;
          interference = jamPower * overlapFactor;
          signal = txPower * snrLin * MOD_EFF (mod' txAct);
          sinr = signal / (noisePower + interference + 1);
          spectralEff = log 2 (1 + sinr);
          throughputMbps = (bwHz / 1000000) * spectralEff;
          jammingIntensity = interference / (interference + noisePower + 1);
          txReward = throughputMbps - 0.02 * txPower - 6 * overlapFactor;
          jamReward = jammingIntensity * jamPower - 0.08 * throughputMbps
      in \<lparr>o_txBin = txBin1, o_jamCenter = jamCenter1, o_jamSpanBins = jamSpanBins,
          o_snrLin = snrLin, o_bwHz = bwHz, o_noisePower = noisePower, o_txPower = txPower,
          o_jamPower = jamPower, o_overlapFactor = overlapFactor,
          o_interference = interference, o_signal = signal, o_sinr = sinr,
          o_spectralEff = spectralEff, o_throughputMbps = throughputMbps,
          o_jammingIntensity = jammingIntensity, o_txReward = txReward,
          o_jamReward = jamReward\<rparr>)"

text \<open>Lines 146 to 149: the settings copied into the state.\<close>

definition applySettings :: "config \<Rightarrow> sim_state \<Rightarrow> sim_state" where
  "applySettings cfg s =
     s\<lparr>tx := (tx s)\<lparr>lr := cfg_lr cfg, eps := cfg_eps cfg\<rparr>,
       freezeLearning := freeze cfg,
       jamAdaptive := cfg_jamAdaptive cfg\<rparr>"

text \<open>Lines 151 to 156: the two action indices, and the random source after the draws.\<close>

definition selectActions :: "sim_state \<Rightarrow> real stream \<Rightarrow> nat \<times> nat \<times> real stream" where
  "selectActions s rnd =
     (let (txIdx, rnd1) = pickAction (q (tx s)) (if freezeLearning s then 0 else eps (tx s)) rnd;
          (jamIdx, rnd2) =
             (if jamAdaptive s
              then pickAction (q (jam s)) (if freezeLearning s then 0 else eps (jam s)) rnd1
              else (nat \<lfloor>shd rnd1 * real (length JAM_ACTIONS)\<rfloor>, stl rnd1))
      in (txIdx, jamIdx, rnd2))"

text \<open>\<^verbatim>\<open>qt[i] += rate * (reward - qt[i])\<close>.\<close>

definition td_update :: "jsval list \<Rightarrow> nat \<Rightarrow> real \<Rightarrow> real \<Rightarrow> jsval list" where
  "td_update qt i rate reward =
     js_set qt i
       (js_arith (+) (js_get qt i)
          (js_arith (*) (Num rate) (js_arith (-) (Num reward) (js_get qt i))))"

text \<open>Lines 179 to 184.\<close>

definition learn :: "sim_state \<Rightarrow> nat \<Rightarrow> nat \<Rightarrow> outcome \<Rightarrow> sim_state" where
  "learn s txIdx jamIdx oc =
     (if \<not> freezeLearning s
      then (let s1 = s\<lparr>tx := (tx s)\<lparr>q := td_update (q (tx s)) txIdx (lr (tx s)) (o_txReward oc)\<rparr>\<rparr>
            in if jamAdaptive s1
               then s1\<lparr>jam := (jam s1)\<lparr>q := td_update (q (jam s1)) jamIdx (lr (jam s1))
                                             (o_jamReward oc)\<rparr>\<rparr>
               else s1)
      else s)"

text \<open>Lines 186 to 200: the last actions, the history entry, the eviction, the tick counter.\<close>

definition record_tick :: "sim_state \<Rightarrow> tx_action \<Rightarrow> jam_action \<Rightarrow> outcome \<Rightarrow> sim_state" where
  "record_tick s txAct jamAct oc =
     (let txLast = \<lparr>fSlot = fSlot txAct, p = p txAct, mod' = mod' txAct, txBin = o_txBin oc\<rparr>;
          jamLast = \<lparr>fSlot = fSlot jamAct, p = p jamAct, span' = span' jamAct,
                     jamCenter = o_jamCenter oc, spanBins = o_jamSpanBins oc\<rparr>;
          s1 = s\<lparr>tx := (tx s)\<lparr>lastAction := Some txLast\<rparr>,
                 jam := (jam s)\<lparr>lastAction := Some jamLast\<rparr>\<rparr>;
          pushed = history s1 @
                     [\<lparr>h_t = t s1, h_throughputMbps = o_throughputMbps oc,
                       h_jammingIntensity = o_jammingIntensity oc,
                       h_sinrDb = linToDb (o_sinr oc),
                       h_overlapFactor = o_overlapFactor oc,
                       h_tx = txLast, h_jam = jamLast\<rparr>];
          s2 = s1\<lparr>history := (if length pushed > HISTORY_POINTS then tl pushed else pushed)\<rparr>
      in s2\<lparr>t := t s2 + 1\<rparr>)"

datatype error = TypeError

text \<open>
  \<^verbatim>\<open>TX_ACTIONS[txIdx]\<close> and \<^verbatim>\<open>JAM_ACTIONS[jamIdx]\<close> are \<^verbatim>\<open>undefined\<close> past the end of the
  arrays, and reading \<^verbatim>\<open>.fSlot\<close> of \<^verbatim>\<open>undefined\<close> (lines 159 and 160) throws.
\<close>

definition stepSimulation ::
    "config \<Rightarrow> real stream \<Rightarrow> sim_state \<Rightarrow> error + (sim_state \<times> real stream)" where
  "stepSimulation cfg rnd s =
     (let s1 = applySettings cfg s;
          (txIdx, jamIdx, rnd') = selectActions s1 rnd
      in if \<not> txIdx < length TX_ACTIONS then Inl TypeError
         else if \<not> jamIdx < length JAM_ACTIONS then Inl TypeError
         else (let txAct = TX_ACTIONS ! txIdx;
                   jamAct = JAM_ACTIONS ! jamIdx;
                   oc = evaluate cfg txAct jamAct
               in Inr (record_tick (learn s1 txIdx jamIdx oc) txAct jamAct oc, rnd')))"

text \<open>A sequence of ticks, one configuration per tick; an exception ends it.\<close>

fun ticks :: "config list \<Rightarrow> real stream \<Rightarrow> sim_state \<Rightarrow> error + (sim_state \<times> real stream)" where
  "ticks [] rnd s = Inr (s, rnd)"
| "ticks (cfg # cfgs) rnd s =
     (case stepSimulation cfg rnd s of
        Inl e \<Rightarrow> Inl e
      | Inr (s', rnd') \<Rightarrow> ticks cfgs rnd' s')"

subsection \<open>The handlers that change the state between ticks\<close>

text \<open>The click on \<^verbatim>\<open>mutateBtn\<close>: one draw per cell of the jammer's table, in index order.\<close>

definition mutateBtn_click :: "real stream \<Rightarrow> sim_state \<Rightarrow> sim_state \<times> real stream" where
  "mutateBtn_click rnd s =
     (let n = length (q (jam s))
      in (s\<lparr>jam := (jam s)\<lparr>q := map (\<lambda>u. Num ((u - 0.5) * 4)) (stake n rnd)\<rparr>\<rparr>, sdrop n rnd))"

definition pauseBtn_click :: "sim_state \<Rightarrow> sim_state" where
  "pauseBtn_click s = s\<lparr>paused := \<not> paused s\<rparr>"

definition freezeLearningToggle_change :: "bool \<Rightarrow> sim_state \<Rightarrow> sim_state" where
  "freezeLearningToggle_change checked s = s\<lparr>freezeLearning := checked\<rparr>"

definition jamAdaptiveToggle_change :: "bool \<Rightarrow> sim_state \<Rightarrow> sim_state" where
  "jamAdaptiveToggle_change checked s = s\<lparr>jamAdaptive := checked\<rparr>"

text \<open>
  \<^verbatim>\<open>Math.random()\<close> returns a number in \<open>[0, 1)\<close>. For such draws the index
  \<open>nat \<lfloor>u * n\<rfloor>\<close> of the model is the source's \<^verbatim>\<open>Math.floor(Math.random() * n)\<close> up to the
  rounding of the product.
\<close>

definition draws_ok :: "real stream \<Rightarrow> bool" where
  "draws_ok rnd \<longleftrightarrow> (\<forall>u \<in> sset rnd. 0 \<le> u \<and> u < 1)"

text \<open>
  The states the page can be in: the loaded script's state, then resets, ticks and the
  handlers in any order.
\<close>

inductive reachable :: "sim_state \<Rightarrow> bool" where
  r_init: "reachable initial_state"
| r_reset: "reachable s \<Longrightarrow> reachable (resetSimulation s)"
| r_step: "reachable s \<Longrightarrow> draws_ok rnd \<Longrightarrow> stepSimulation cfg rnd s = Inr (s', rnd')
            \<Longrightarrow> reachable s'"
| r_mutate: "reachable s \<Longrightarrow> draws_ok rnd \<Longrightarrow> reachable (fst (mutateBtn_click rnd s))"
| r_pause: "reachable s \<Longrightarrow> reachable (pauseBtn_click s)"
| r_freeze: "reachable s \<Longrightarrow> reachable (freezeLearningToggle_change b s)"
| r_adaptive: "reachable s \<Longrightarrow> reachable (jamAdaptiveToggle_change b s)"


text \<open>Neither value table is longer than its action space.\<close>

definition tables_ok :: "sim_state \<Rightarrow> bool" where
  "tables_ok s \<longleftrightarrow>
     length (q (tx s)) \<le> length TX_ACTIONS \<and> length (q (jam s)) \<le> length JAM_ACTIONS"

text \<open>The state a tick leaves when it does not throw.\<close>

definition tick_result :: "config \<Rightarrow> real stream \<Rightarrow> sim_state \<Rightarrow> sim_state" where
  "tick_result cfg rnd s =
     (let s1 = applySettings cfg s;
          i = fst (selectActions s1 rnd);
          j = fst (snd (selectActions s1 rnd));
          oc = evaluate cfg (TX_ACTIONS ! i) (JAM_ACTIONS ! j)
      in record_tick (learn s1 i j oc) (TX_ACTIONS ! i) (JAM_ACTIONS ! j) oc)"

text \<open>A configuration for the examples.\<close>

definition cfg0 :: config where
  "cfg0 = \<lparr>snrDb = 10, bwMHz = 20, noiseDensity = 0, jamMaxPower = 1, jamMaxSpan = 8,
           txMaxPower = 1, cfg_lr = 0.18, cfg_eps = 1, freeze = False, cfg_jamAdaptive = True\<rparr>"

definition cfg1 :: config where
  "cfg1 = \<lparr>snrDb = 10, bwMHz = 0, noiseDensity = 0, jamMaxPower = 1, jamMaxSpan = 8,
           txMaxPower = 1, cfg_lr = 1 / 2, cfg_eps = 0, freeze = False, cfg_jamAdaptive = True\<rparr>"

subsection \<open>The page around the engine\<close>

text \<open>
  An element of the document, as far as the script reads it: the number its \<^verbatim>\<open>value\<close>
  denotes and its \<^verbatim>\<open>checked\<close> flag. \<^verbatim>\<open>dom\<close> maps an id to the element it refers to;
  \<open>None\<close> is a reference that is \<^verbatim>\<open>undefined\<close> (never set) or \<^verbatim>\<open>null\<close> (no such element),
  and reading a property of either throws.
\<close>

record element =
  el_value :: real
  el_checked :: bool

type_synonym dom_refs = "string \<rightharpoonup> element"

definition dom_ids :: "string list" where
  "dom_ids =
     [''snrInput'', ''bwInput'', ''noiseInput'', ''jamPowerInput'', ''jamSpanInput'',
      ''txPowerInput'', ''lrInput'', ''epsInput'', ''freezeLearningToggle'',
      ''jamAdaptiveToggle'', ''mutateBtn'', ''restartBtn'', ''pauseBtn'', ''statusDot'',
      ''statusText'', ''timeline'', ''stateGrid'', ''spectrumCanvas'']"

text \<open>\<^verbatim>\<open>dom[id] = document.getElementById(id)\<close> for each of the ids, in order.\<close>

definition setupDomRefs :: "(string \<rightharpoonup> element) \<Rightarrow> dom_refs \<Rightarrow> dom_refs" where
  "setupDomRefs doc d = fold (\<lambda>i d'. d'(i := doc i)) dom_ids d"

definition bind_err :: "error + 'a \<Rightarrow> ('a \<Rightarrow> error + 'b) \<Rightarrow> error + 'b" where
  "bind_err r f = (case r of Inl e \<Rightarrow> Inl e | Inr x \<Rightarrow> f x)"

definition read_value :: "dom_refs \<Rightarrow> string \<Rightarrow> error + real" where
  "read_value d i = (case d i of None \<Rightarrow> Inl TypeError | Some e \<Rightarrow> Inr (el_value e))"

definition read_checked :: "dom_refs \<Rightarrow> string \<Rightarrow> error + bool" where
  "read_checked d i = (case d i of None \<Rightarrow> Inl TypeError | Some e \<Rightarrow> Inr (el_checked e))"

definition readSettings :: "dom_refs \<Rightarrow> error + config" where
  "readSettings d =
     bind_err (read_value d ''snrInput'') (\<lambda>v1.
     bind_err (read_value d ''bwInput'') (\<lambda>v2.
     bind_err (read_value d ''noiseInput'') (\<lambda>v3.
     bind_err (read_value d ''jamPowerInput'') (\<lambda>v4.
     bind_err (read_value d ''jamSpanInput'') (\<lambda>v5.
     bind_err (read_value d ''txPowerInput'') (\<lambda>v6.
     bind_err (read_value d ''lrInput'') (\<lambda>v7.
     bind_err (read_value d ''epsInput'') (\<lambda>v8.
     bind_err (read_checked d ''freezeLearningToggle'') (\<lambda>v9.
     bind_err (read_checked d ''jamAdaptiveToggle'') (\<lambda>v10.
       Inr \<lparr>snrDb = v1, bwMHz = v2, noiseDensity = v3, jamMaxPower = v4, jamMaxSpan = v5,
            txMaxPower = v6, cfg_lr = v7, cfg_eps = v8, freeze = v9,
            cfg_jamAdaptive = v10\<rparr>))))))))))"

text \<open>
  \<^verbatim>\<open>stepSimulation()\<close> as the page calls it: \<^verbatim>\<open>readSettings\<close> first, which throws before
  anything is assigned; then the tick; then the rendering, of which \<^verbatim>\<open>renderTimeline\<close> and
  \<^verbatim>\<open>renderState\<close> read \<^verbatim>\<open>dom.timeline\<close> and \<^verbatim>\<open>dom.stateGrid\<close> (the chart and the canvas
  read no \<^verbatim>\<open>dom\<close> reference and are left out). A thrown exception does not undo the
  assignments made before it, so the error carries the state at the throw.
\<close>

definition stepSimulation_page ::
    "dom_refs \<Rightarrow> real stream \<Rightarrow> sim_state \<Rightarrow> (error \<times> sim_state) + (sim_state \<times> real stream)" where
  "stepSimulation_page d rnd s =
     (case readSettings d of
        Inl e \<Rightarrow> Inl (e, s)
      | Inr cfg \<Rightarrow>
          (case stepSimulation cfg rnd s of
             Inl e \<Rightarrow> Inl (e, applySettings cfg s)
           | Inr (s', rnd') \<Rightarrow>
               if d ''timeline'' = None \<or> d ''stateGrid'' = None then Inl (TypeError, s')
               else Inr (s', rnd')))"

text \<open>\<^verbatim>\<open>resetSimulation()\<close> with its three lines on \<^verbatim>\<open>dom\<close>, which come after the state.\<close>

definition resetSimulation_page :: "dom_refs \<Rightarrow> sim_state \<Rightarrow> (error \<times> sim_state) + sim_state" where
  "resetSimulation_page d s =
     (if d ''statusText'' = None \<or> d ''statusDot'' = None then Inl (TypeError, resetSimulation s)
      else Inr (resetSimulation s))"

text \<open>
  \<^verbatim>\<open>main()\<close>, run on \<^verbatim>\<open>DOMContentLoaded\<close>, up to the start of the timer: the references, the
  canvas context, the reset, the handlers (\<^verbatim>\<open>initChart\<close> belongs to the charting library and
  is left out; it comes after the reset).
\<close>

definition main ::
    "(string \<rightharpoonup> element) \<Rightarrow> dom_refs \<Rightarrow> sim_state
       \<Rightarrow> (error \<times> dom_refs \<times> sim_state) + (dom_refs \<times> sim_state)" where
  "main doc d s =
     (let d1 = setupDomRefs doc d
      in if d1 ''spectrumCanvas'' = None then Inl (TypeError, d1, s)
         else (case resetSimulation_page d1 s of
                 Inl (e, s1) \<Rightarrow> Inl (e, d1, s1)
               | Inr s1 \<Rightarrow>
                   if d1 ''restartBtn'' = None \<or> d1 ''pauseBtn'' = None
                      \<or> d1 ''freezeLearningToggle'' = None \<or> d1 ''jamAdaptiveToggle'' = None
                      \<or> d1 ''mutateBtn'' = None
                   then Inl (TypeError, d1, s1)
                   else Inr (d1, s1)))"


text \<open>A document for the examples: it has every element the script asks for.\<close>

definition doc0 :: "string \<rightharpoonup> element" where
  "doc0 = (\<lambda>i. if i \<in> set dom_ids then Some \<lparr>el_value = 1, el_checked = False\<rparr> else None)"


section \<open>Properties\<close>

subsection \<open>Tables, selection and the phases of a tick\<close>

lemma length_TX_ACTIONS: "length TX_ACTIONS = 108"
  by (simp add: TX_ACTIONS_def buildActionSpace_def TX_FREQ_SLOTS_def MODS_def
      TX_POWER_LEVELS_def upto.simps length_concat)

lemma length_JAM_ACTIONS: "length JAM_ACTIONS = 144"
  by (simp add: JAM_ACTIONS_def buildJamActions_def TX_FREQ_SLOTS_def JAM_SPANS_def
      JAM_POWER_LEVELS_def upto.simps length_concat)

lemma length_js_set: "length (js_set xs i v) = max (length xs) (Suc i)"
  by (simp add: js_set_def)

lemma js_set_in_range: "i < length xs \<Longrightarrow> js_set xs i v = xs[i := v]"
  by (simp add: js_set_def)

lemma fold_zero_prefix:
  "k \<le> length xs \<Longrightarrow>
     fold (\<lambda>i tb. js_set tb i (Num 0)) [0 ..< k] xs = replicate k (Num 0) @ drop k xs"
proof (induction k)
  case 0
  then show ?case by simp
next
  case (Suc k)
  then have k: "k < length xs" by simp
  have "fold (\<lambda>i tb. js_set tb i (Num 0)) [0 ..< Suc k] xs =
          js_set (replicate k (Num 0) @ drop k xs) k (Num 0)"
    using Suc by simp
  also have "\<dots> = (replicate k (Num 0) @ drop k xs)[k := Num 0]"
    using k by (simp add: js_set_def)
  also have "\<dots> = replicate k (Num 0) @ (drop k xs)[0 := Num 0]"
    by (simp add: list_update_append)
  also have "(drop k xs)[0 := Num 0] = Num 0 # drop (Suc k) xs"
    using k by (simp add: Cons_nth_drop_Suc [symmetric])
  finally show ?case
    by (simp add: replicate_append_same)
qed

lemma length_set_length: "length (set_length xs n) = n"
  by (simp add: set_length_def)

lemma initQ_zero: "initQ table n = replicate n (Num 0)"
  using fold_zero_prefix [of n "set_length table n"]
  by (simp add: initQ_def length_set_length)

lemma fold_best_bound:
  assumes "\<forall>i \<in> set js. i < n" and "b < n"
  shows "fold (\<lambda>i best. if P i best then i else best) js b < n"
  using assms by (induction js arbitrary: b) auto

lemma argMax_bound: "arr \<noteq> [] \<Longrightarrow> argMax arr < length arr"
  unfolding argMax_def by (rule fold_best_bound) auto

lemma argMax_Nil: "argMax [] = 0"
  by (simp add: argMax_def)

lemma argMax_le: "argMax arr \<le> length arr - 1"
  using argMax_bound [of arr] by (cases "arr = []") (auto simp: argMax_Nil)

lemma draws_ok_stl: "draws_ok rnd \<Longrightarrow> draws_ok (stl rnd)"
  by (auto simp: draws_ok_def dest: stl_sset)

lemma draws_ok_shd: "draws_ok rnd \<Longrightarrow> 0 \<le> shd rnd \<and> shd rnd < 1"
  by (simp add: draws_ok_def shd_sset)

lemma random_index_bound:
  assumes "0 \<le> u" and "u < 1" and "0 < n"
  shows "nat \<lfloor>u * real n\<rfloor> < n"
proof -
  have "u * real n < real n" using assms by simp
  then have "\<lfloor>u * real n\<rfloor> < int n" by linarith
  then show ?thesis using assms by linarith
qed

lemma random_index_le:
  assumes "0 \<le> u" and "u < 1"
  shows "nat \<lfloor>u * real n\<rfloor> \<le> n - 1"
  using random_index_bound [OF assms, of n] by (cases "n = 0") auto

lemma pickAction_le:
  assumes "draws_ok rnd"
  shows "fst (pickAction qt e rnd) \<le> length qt - 1"
proof -
  have "0 \<le> shd (stl rnd)" and "shd (stl rnd) < 1"
    using draws_ok_shd [OF draws_ok_stl [OF assms]] by simp_all
  then have "nat \<lfloor>shd (stl rnd) * real (length qt)\<rfloor> \<le> length qt - 1"
    by (rule random_index_le)
  then show ?thesis
    using argMax_le [of qt] by (simp add: pickAction_def)
qed

lemma pickAction_draws:
  assumes "draws_ok rnd"
  shows "draws_ok (snd (pickAction qt e rnd))"
  using assms by (simp add: pickAction_def draws_ok_stl)


lemma selectActions_tx:
  "fst (selectActions s rnd) =
     fst (pickAction (q (tx s)) (if freezeLearning s then 0 else eps (tx s)) rnd)"
  by (simp add: selectActions_def Let_def split: prod.splits)

lemma selectActions_jam:
  "fst (snd (selectActions s rnd)) =
     (let rnd1 = snd (pickAction (q (tx s)) (if freezeLearning s then 0 else eps (tx s)) rnd)
      in if jamAdaptive s
         then fst (pickAction (q (jam s)) (if freezeLearning s then 0 else eps (jam s)) rnd1)
         else nat \<lfloor>shd rnd1 * real (length JAM_ACTIONS)\<rfloor>)"
  by (simp add: selectActions_def Let_def split: prod.splits)

lemma selectActions_rnd:
  "snd (snd (selectActions s rnd)) =
     (let rnd1 = snd (pickAction (q (tx s)) (if freezeLearning s then 0 else eps (tx s)) rnd)
      in if jamAdaptive s
         then snd (pickAction (q (jam s)) (if freezeLearning s then 0 else eps (jam s)) rnd1)
         else stl rnd1)"
  by (simp add: selectActions_def Let_def split: prod.splits)

lemma selectActions_bounds:
  assumes "draws_ok rnd" and "tables_ok s"
  shows "fst (selectActions s rnd) < length TX_ACTIONS"
    and "fst (snd (selectActions s rnd)) < length JAM_ACTIONS"
    and "draws_ok (snd (snd (selectActions s rnd)))"
    and "fst (selectActions s rnd) \<le> length (q (tx s)) - 1"
    and "jamAdaptive s \<Longrightarrow> fst (snd (selectActions s rnd)) \<le> length (q (jam s)) - 1"
proof -
  let ?e = "if freezeLearning s then 0 else eps (tx s)"
  let ?rnd1 = "snd (pickAction (q (tx s)) ?e rnd)"
  have d1: "draws_ok ?rnd1"
    using assms(1) by (rule pickAction_draws)
  have "fst (pickAction (q (tx s)) ?e rnd) \<le> length (q (tx s)) - 1"
    using assms(1) by (rule pickAction_le)
  then show a: "fst (selectActions s rnd) \<le> length (q (tx s)) - 1"
    by (simp only: selectActions_tx)
  have "length (q (tx s)) \<le> 108"
    using assms(2) by (simp add: tables_ok_def length_TX_ACTIONS)
  with a show "fst (selectActions s rnd) < length TX_ACTIONS"
    by (simp add: length_TX_ACTIONS)
  show b: "fst (snd (selectActions s rnd)) \<le> length (q (jam s)) - 1" if "jamAdaptive s"
    using that pickAction_le [OF d1] by (simp add: selectActions_jam Let_def)
  have j: "length (q (jam s)) \<le> 144"
    using assms(2) by (simp add: tables_ok_def length_JAM_ACTIONS)
  show "fst (snd (selectActions s rnd)) < length JAM_ACTIONS"
  proof (cases "jamAdaptive s")
    case True
    with b j show ?thesis by (simp add: length_JAM_ACTIONS)
  next
    case False
    have "nat \<lfloor>shd ?rnd1 * real (144::nat)\<rfloor> < 144"
      using draws_ok_shd [OF d1] by (intro random_index_bound) simp_all
    with False show ?thesis
      by (simp add: selectActions_jam Let_def length_JAM_ACTIONS)
  qed
  show "draws_ok (snd (snd (selectActions s rnd)))"
    using d1 by (simp add: selectActions_rnd Let_def pickAction_draws draws_ok_stl)
qed

lemma stepSimulation_cases:
  "stepSimulation cfg rnd s =
     (if fst (selectActions (applySettings cfg s) rnd) < length TX_ACTIONS
         \<and> fst (snd (selectActions (applySettings cfg s) rnd)) < length JAM_ACTIONS
      then Inr (tick_result cfg rnd s, snd (snd (selectActions (applySettings cfg s) rnd)))
      else Inl TypeError)"
  by (simp add: stepSimulation_def tick_result_def Let_def split: prod.splits)

lemma tables_ok_applySettings: "tables_ok (applySettings cfg s) = tables_ok s"
  by (simp add: tables_ok_def applySettings_def)

lemma stepSimulation_Inr:
  assumes "draws_ok rnd" and "tables_ok s"
  shows "stepSimulation cfg rnd s =
           Inr (tick_result cfg rnd s, snd (snd (selectActions (applySettings cfg s) rnd)))"
  using selectActions_bounds(1,2) [OF assms(1), of "applySettings cfg s"] assms(2)
  by (simp add: stepSimulation_cases tables_ok_applySettings)


lemma applySettings_simps:
  "q (tx (applySettings cfg s)) = q (tx s)"
  "q (jam (applySettings cfg s)) = q (jam s)"
  "eps (tx (applySettings cfg s)) = cfg_eps cfg"
  "lr (tx (applySettings cfg s)) = cfg_lr cfg"
  "eps (jam (applySettings cfg s)) = eps (jam s)"
  "lr (jam (applySettings cfg s)) = lr (jam s)"
  "freezeLearning (applySettings cfg s) = freeze cfg"
  "jamAdaptive (applySettings cfg s) = cfg_jamAdaptive cfg"
  "t (applySettings cfg s) = t s"
  "history (applySettings cfg s) = history s"
  by (simp_all add: applySettings_def)

lemma learn_simps:
  "q (tx (learn s i j oc)) =
     (if freezeLearning s then q (tx s) else td_update (q (tx s)) i (lr (tx s)) (o_txReward oc))"
  "q (jam (learn s i j oc)) =
     (if \<not> freezeLearning s \<and> jamAdaptive s
      then td_update (q (jam s)) j (lr (jam s)) (o_jamReward oc) else q (jam s))"
  "eps (tx (learn s i j oc)) = eps (tx s)"
  "lr (tx (learn s i j oc)) = lr (tx s)"
  "eps (jam (learn s i j oc)) = eps (jam s)"
  "lr (jam (learn s i j oc)) = lr (jam s)"
  "t (learn s i j oc) = t s"
  "history (learn s i j oc) = history s"
  by (simp_all add: learn_def Let_def)

lemma record_tick_simps:
  "q (tx (record_tick s a b oc)) = q (tx s)"
  "q (jam (record_tick s a b oc)) = q (jam s)"
  "eps (tx (record_tick s a b oc)) = eps (tx s)"
  "lr (tx (record_tick s a b oc)) = lr (tx s)"
  "eps (jam (record_tick s a b oc)) = eps (jam s)"
  "lr (jam (record_tick s a b oc)) = lr (jam s)"
  "t (record_tick s a b oc) = t s + 1"
  by (simp_all add: record_tick_def Let_def)

lemma record_tick_ticks:
  "map h_t (history (record_tick s a b oc)) =
     (if length (history s) + 1 > HISTORY_POINTS
      then tl (map h_t (history s) @ [t s]) else map h_t (history s) @ [t s])"
  by (simp add: record_tick_def Let_def map_tl)

lemma length_td_update: "length (td_update qt i rate r) = max (length qt) (Suc i)"
  by (simp add: td_update_def length_js_set)

lemma tick_result_simps:
  "t (tick_result cfg rnd s) = t s + 1"
  "eps (jam (tick_result cfg rnd s)) = eps (jam s)"
  "lr (jam (tick_result cfg rnd s)) = lr (jam s)"
  "eps (tx (tick_result cfg rnd s)) = cfg_eps cfg"
  "lr (tx (tick_result cfg rnd s)) = cfg_lr cfg"
  by (simp_all add: tick_result_def Let_def record_tick_simps learn_simps applySettings_simps)

lemma tick_result_ticks:
  "map h_t (history (tick_result cfg rnd s)) =
     (if length (history s) + 1 > HISTORY_POINTS
      then tl (map h_t (history s) @ [t s]) else map h_t (history s) @ [t s])"
  by (simp add: tick_result_def Let_def record_tick_ticks learn_simps applySettings_simps)

lemma tick_result_tx_q:
  "q (tx (tick_result cfg rnd s)) =
     (if freeze cfg then q (tx s)
      else td_update (q (tx s)) (fst (selectActions (applySettings cfg s) rnd)) (cfg_lr cfg)
             (o_txReward (evaluate cfg
                (TX_ACTIONS ! fst (selectActions (applySettings cfg s) rnd))
                (JAM_ACTIONS ! fst (snd (selectActions (applySettings cfg s) rnd))))))"
  by (simp add: tick_result_def Let_def record_tick_simps learn_simps applySettings_simps)

lemma tick_result_jam_q:
  "q (jam (tick_result cfg rnd s)) =
     (if \<not> freeze cfg \<and> cfg_jamAdaptive cfg
      then td_update (q (jam s)) (fst (snd (selectActions (applySettings cfg s) rnd))) (lr (jam s))
             (o_jamReward (evaluate cfg
                (TX_ACTIONS ! fst (selectActions (applySettings cfg s) rnd))
                (JAM_ACTIONS ! fst (snd (selectActions (applySettings cfg s) rnd)))))
      else q (jam s))"
  by (simp add: tick_result_def Let_def record_tick_simps learn_simps applySettings_simps)

lemma tables_ok_tick_result:
  assumes "draws_ok rnd" and "tables_ok s"
  shows "tables_ok (tick_result cfg rnd s)"
proof -
  let ?s1 = "applySettings cfg s"
  have ok1: "tables_ok ?s1"
    using assms(2) by (simp add: tables_ok_applySettings)
  have i: "fst (selectActions ?s1 rnd) < length TX_ACTIONS"
    using assms(1) ok1 by (rule selectActions_bounds(1))
  have j: "fst (snd (selectActions ?s1 rnd)) < length JAM_ACTIONS"
    using assms(1) ok1 by (rule selectActions_bounds(2))
  have "length (q (tx (tick_result cfg rnd s))) \<le> length TX_ACTIONS"
    using i assms(2) by (simp add: tick_result_tx_q length_td_update tables_ok_def)
  moreover have "length (q (jam (tick_result cfg rnd s))) \<le> length JAM_ACTIONS"
    using j assms(2) by (simp add: tick_result_jam_q length_td_update tables_ok_def)
  ultimately show ?thesis
    by (simp add: tables_ok_def)
qed

lemma tables_ok_reset: "tables_ok (resetSimulation s)"
  by (simp add: tables_ok_def resetSimulation_def initQ_zero)

subsection \<open>Frequency resolution\<close>

text \<open>
  C7: for every slot in \<open>[0, TX_FREQ_SLOTS)\<close> the resolved bin is the midpoint of the slot's
  segment of \<open>BINS div TX_FREQ_SLOTS\<close> bins, clamped to \<open>BINS - 1\<close>; it lies inside the
  segment; slot 0 resolves to bin 2 and slot 5 to bin 22.
\<close>

theorem mapFreqSlotToBin_midpoint:
  assumes "0 \<le> slot" and "slot < TX_FREQ_SLOTS"
  shows "mapFreqSlotToBin slot =
           min (BINS - 1) (slot * (BINS div TX_FREQ_SLOTS) + (BINS div TX_FREQ_SLOTS) div 2)
       \<and> mapFreqSlotToBin slot = slot * (BINS div TX_FREQ_SLOTS) + (BINS div TX_FREQ_SLOTS) div 2
       \<and> slot * (BINS div TX_FREQ_SLOTS) \<le> mapFreqSlotToBin slot
       \<and> mapFreqSlotToBin slot < (slot + 1) * (BINS div TX_FREQ_SLOTS)
       \<and> mapFreqSlotToBin slot \<le> BINS - 1
       \<and> BINS div TX_FREQ_SLOTS = 4
       \<and> mapFreqSlotToBin 0 = 2 \<and> mapFreqSlotToBin 5 = 22"
  using assms by (simp add: mapFreqSlotToBin_def BINS_def TX_FREQ_SLOTS_def Let_def)

theorem mapFreqSlotToBin_midpoint_witness:
  "(0::int) \<le> 11 \<and> 11 < TX_FREQ_SLOTS \<and> mapFreqSlotToBin 11 = 46"
  using mapFreqSlotToBin_midpoint [of 11] by (simp add: TX_FREQ_SLOTS_def BINS_def)

subsection \<open>Overlap\<close>

lemma computeOverlap_outside:
  assumes "\<bar>tb - jc\<bar> > \<lfloor>sb / 2\<rfloor>"
  shows "computeOverlap tb jc sb = 0"
proof -
  have "tb < max 0 (jc - \<lfloor>sb / 2\<rfloor>) \<or> tb > min (BINS - 1) (jc + \<lfloor>sb / 2\<rfloor>)"
    using assms by linarith
  then show ?thesis
    by (simp add: computeOverlap_def Let_def)
qed

lemma computeOverlap_inside:
  assumes "0 \<le> tb" "tb < BINS" "\<bar>tb - jc\<bar> \<le> \<lfloor>sb / 2\<rfloor>"
  shows "computeOverlap tb jc sb =
           1 - real_of_int (\<bar>tb - jc\<bar> + 1) / real_of_int (\<lfloor>sb / 2\<rfloor> + 1)"
proof -
  let ?h = "\<lfloor>sb / 2\<rfloor>"
  have win: "\<not> (tb < max 0 (jc - ?h) \<or> tb > min (BINS - 1) (jc + ?h))"
    using assms by linarith
  have "real_of_int (\<bar>tb - jc\<bar> + 1) \<le> real_of_int (?h + 1)"
    using assms(3) by linarith
  moreover have "0 < real_of_int (?h + 1)"
    using assms(3) by linarith
  ultimately have "real_of_int (\<bar>tb - jc\<bar> + 1) / real_of_int (?h + 1) \<le> 1"
    by (simp add: divide_le_eq)
  then have "max 0 (1 - real_of_int (\<bar>tb - jc\<bar> + 1) / real_of_int (?h + 1)) =
             1 - real_of_int (\<bar>tb - jc\<bar> + 1) / real_of_int (?h + 1)"
    by simp
  with win show ?thesis
    by (simp add: computeOverlap_def Let_def)
qed

lemma computeOverlap_window:
  assumes "\<not> (tb < max 0 (jc - \<lfloor>sb / 2\<rfloor>) \<or> tb > min (BINS - 1) (jc + \<lfloor>sb / 2\<rfloor>))"
  shows "0 \<le> tb \<and> tb < BINS \<and> \<bar>tb - jc\<bar> \<le> \<lfloor>sb / 2\<rfloor>"
  using assms by (simp add: BINS_def) linarith

lemma computeOverlap_range: "0 \<le> computeOverlap tb jc sb \<and> computeOverlap tb jc sb < 1"
proof (cases "tb < max 0 (jc - \<lfloor>sb / 2\<rfloor>) \<or> tb > min (BINS - 1) (jc + \<lfloor>sb / 2\<rfloor>)")
  case True
  then show ?thesis by (simp add: computeOverlap_def Let_def)
next
  case False
  let ?h = "\<lfloor>sb / 2\<rfloor>"
  from False have h: "\<bar>tb - jc\<bar> \<le> ?h"
    using computeOverlap_window by blast
  then have pos: "0 < real_of_int (?h + 1)" by linarith
  have "0 < real_of_int (\<bar>tb - jc\<bar> + 1)" by linarith
  from this pos have "0 < real_of_int (\<bar>tb - jc\<bar> + 1) / real_of_int (?h + 1)"
    by (rule divide_pos_pos)
  then have "max 0 (1 - real_of_int (\<bar>tb - jc\<bar> + 1) / real_of_int (?h + 1)) < 1"
    by simp
  moreover have "0 \<le> max 0 (1 - real_of_int (\<bar>tb - jc\<bar> + 1) / real_of_int (?h + 1))"
    by simp
  ultimately show ?thesis
    using False by (simp add: computeOverlap_def Let_def)
qed

lemma computeOverlap_centre:
  assumes "0 \<le> jc" "jc < BINS" "0 \<le> \<lfloor>sb / 2\<rfloor>"
  shows "computeOverlap jc jc sb = real_of_int \<lfloor>sb / 2\<rfloor> / real_of_int (\<lfloor>sb / 2\<rfloor> + 1)"
proof -
  have "computeOverlap jc jc sb = 1 - real_of_int (\<bar>jc - jc\<bar> + 1) / real_of_int (\<lfloor>sb / 2\<rfloor> + 1)"
    using assms by (intro computeOverlap_inside) simp_all
  moreover have "real_of_int (\<lfloor>sb / 2\<rfloor> + 1) \<noteq> 0"
    using assms(3) by linarith
  ultimately show ?thesis
    by (simp add: field_simps)
qed

lemma computeOverlap_peak:
  assumes "0 \<le> jc" "jc < BINS"
  shows "computeOverlap tb jc sb \<le> computeOverlap jc jc sb"
proof (cases "tb < max 0 (jc - \<lfloor>sb / 2\<rfloor>) \<or> tb > min (BINS - 1) (jc + \<lfloor>sb / 2\<rfloor>)")
  case True
  then have "computeOverlap tb jc sb = 0" by (simp add: computeOverlap_def Let_def)
  then show ?thesis using computeOverlap_range [of jc jc sb] by simp
next
  case False
  let ?h = "\<lfloor>sb / 2\<rfloor>"
  from False have w: "0 \<le> tb" "tb < BINS" "\<bar>tb - jc\<bar> \<le> ?h"
    using computeOverlap_window by blast+
  then have h0: "0 \<le> ?h" by linarith
  then have pos: "0 < real_of_int (?h + 1)" by linarith
  have a: "computeOverlap tb jc sb = 1 - real_of_int (\<bar>tb - jc\<bar> + 1) / real_of_int (?h + 1)"
    using w by (rule computeOverlap_inside)
  have b: "computeOverlap jc jc sb = 1 - real_of_int (\<bar>jc - jc\<bar> + 1) / real_of_int (?h + 1)"
    using assms h0 by (intro computeOverlap_inside) simp_all
  have "real_of_int (\<bar>jc - jc\<bar> + 1) \<le> real_of_int (\<bar>tb - jc\<bar> + 1)" by simp
  then have "real_of_int (\<bar>jc - jc\<bar> + 1) / real_of_int (?h + 1)
           \<le> real_of_int (\<bar>tb - jc\<bar> + 1) / real_of_int (?h + 1)"
    using pos by (simp only: divide_right_mono less_imp_le)
  with a b show ?thesis by linarith
qed

text \<open>
  C1, as the specification states it, asks for the value 1 exactly when the transmitter sits
  on the jammer's centre. At the centre the distance term is already 1, so the weight there
  is \<open>half / (half + 1)\<close>.
\<close>

theorem computeOverlap_centre_counterexample:
  "\<not> (computeOverlap 2 2 4 = 1 \<longleftrightarrow> (2::int) = 2)"
  by (simp add: computeOverlap_def BINS_def Let_def)

text \<open>
  C1 (amended): for bins in \<open>[0, BINS)\<close> and every span, the overlap lies in \<open>[0, 1)\<close>, so it
  is never 1; it is largest at the jammer's centre, where it is \<open>half / (half + 1)\<close> for a
  half-span \<open>half = \<lfloor>span / 2\<rfloor> \<ge> 0\<close>; and it is 0 whenever the distance between the bins
  exceeds the half-span.
\<close>

theorem computeOverlap_triangular:
  assumes "0 \<le> tb" and "tb < BINS" and "0 \<le> jc" and "jc < BINS"
  shows "0 \<le> computeOverlap tb jc sb \<and> computeOverlap tb jc sb < 1
       \<and> computeOverlap tb jc sb \<le> computeOverlap jc jc sb
       \<and> (0 \<le> \<lfloor>sb / 2\<rfloor> \<longrightarrow>
            computeOverlap jc jc sb = real_of_int \<lfloor>sb / 2\<rfloor> / real_of_int (\<lfloor>sb / 2\<rfloor> + 1))
       \<and> (\<bar>tb - jc\<bar> > \<lfloor>sb / 2\<rfloor> \<longrightarrow> computeOverlap tb jc sb = 0)"
  using assms computeOverlap_range [of tb jc sb] computeOverlap_peak [of jc tb sb]
    computeOverlap_centre [of jc sb] computeOverlap_outside [of sb tb jc]
  by blast

theorem computeOverlap_triangular_witness:
  "(0::int) \<le> 7 \<and> 7 < BINS \<and> (0::int) \<le> 2 \<and> 2 < BINS \<and> 0 \<le> \<lfloor>(4::real) / 2\<rfloor>
   \<and> \<bar>(7::int) - 2\<bar> > \<lfloor>(4::real) / 2\<rfloor>
   \<and> computeOverlap 7 2 4 = 0 \<and> computeOverlap 2 2 4 = 2 / 3 \<and> computeOverlap 2 2 4 < 1"
  using computeOverlap_triangular [of 7 2 4] by (simp add: BINS_def)

subsection \<open>History\<close>

lemma tick_result_window:
  assumes "map h_t (history s) = [t s - min (t s) HISTORY_POINTS ..< t s]"
  shows "map h_t (history (tick_result cfg rnd s)) =
           [Suc (t s) - min (Suc (t s)) HISTORY_POINTS ..< Suc (t s)]"
proof -
  have "length (map h_t (history s)) = min (t s) HISTORY_POINTS"
    unfolding assms by simp
  then have len: "length (history s) = min (t s) HISTORY_POINTS"
    by simp
  show ?thesis
  proof (cases "HISTORY_POINTS \<le> t s")
    case True
    then have "map h_t (history (tick_result cfg rnd s)) =
                 tl ([t s - HISTORY_POINTS ..< t s] @ [t s])"
      using assms len by (simp add: tick_result_ticks min_def)
    also have "[t s - HISTORY_POINTS ..< t s] @ [t s] = [t s - HISTORY_POINTS ..< Suc (t s)]"
      by simp
    also have "tl \<dots> = [Suc (t s - HISTORY_POINTS) ..< Suc (t s)]"
      by (simp add: tl_upt)
    also have "Suc (t s - HISTORY_POINTS) = Suc (t s) - min (Suc (t s)) HISTORY_POINTS"
      using True by (simp add: min_def HISTORY_POINTS_def)
    finally show ?thesis .
  next
    case False
    then have "map h_t (history (tick_result cfg rnd s)) = [0 ..< t s] @ [t s]"
      using assms len by (simp add: tick_result_ticks min_def)
    also have "\<dots> = [Suc (t s) - min (Suc (t s)) HISTORY_POINTS ..< Suc (t s)]"
      using False by (simp add: min_def)
    finally show ?thesis .
  qed
qed

lemma ticks_window:
  assumes "draws_ok rnd" and "tables_ok s"
    and "map h_t (history s) = [t s - min (t s) HISTORY_POINTS ..< t s]"
  shows "\<exists>s' rnd'. ticks cfgs rnd s = Inr (s', rnd')
           \<and> t s' = t s + length cfgs
           \<and> map h_t (history s') = [t s' - min (t s') HISTORY_POINTS ..< t s']"
  using assms
proof (induction cfgs arbitrary: rnd s)
  case Nil
  then show ?case by simp
next
  case (Cons cfg cfgs)
  let ?s1 = "tick_result cfg rnd s"
  let ?r1 = "snd (snd (selectActions (applySettings cfg s) rnd))"
  have step: "stepSimulation cfg rnd s = Inr (?s1, ?r1)"
    using Cons.prems(1,2) by (rule stepSimulation_Inr)
  have d: "draws_ok ?r1"
    using Cons.prems(1,2) by (simp add: selectActions_bounds(3) tables_ok_applySettings)
  have ok: "tables_ok ?s1"
    using Cons.prems(1,2) by (rule tables_ok_tick_result)
  have w: "map h_t (history ?s1) = [t ?s1 - min (t ?s1) HISTORY_POINTS ..< t ?s1]"
    using tick_result_window [OF Cons.prems(3), of cfg rnd] by (simp add: tick_result_simps)
  from Cons.IH [OF d ok w] obtain s' rnd' where
    "ticks cfgs ?r1 ?s1 = Inr (s', rnd')" and "t s' = t ?s1 + length cfgs"
    and "map h_t (history s') = [t s' - min (t s') HISTORY_POINTS ..< t s']"
    by blast
  then show ?case
    using step by (simp add: tick_result_simps)
qed

lemma reset_simps:
  "t (resetSimulation s) = 0"
  "history (resetSimulation s) = []"
  "q (tx (resetSimulation s)) = replicate (length TX_ACTIONS) (Num 0)"
  "q (jam (resetSimulation s)) = replicate (length JAM_ACTIONS) (Num 0)"
  "eps (jam (resetSimulation s)) = eps (jam s)"
  "lr (jam (resetSimulation s)) = lr (jam s)"
  by (simp_all add: resetSimulation_def initQ_zero)

text \<open>
  C3: after a reset followed by any number of ticks, the history holds at most
  \<open>HISTORY_POINTS\<close> entries, and their tick values are the last ones in ascending order, one
  apart: \<open>0, 1, \<dots>, n - 1\<close> up to the capacity, and \<open>k, \<dots>, HISTORY_POINTS + k - 1\<close> after
  \<open>HISTORY_POINTS + k\<close> ticks, so that the oldest \<open>k\<close> entries are gone.
\<close>

theorem history_bounded_fifo:
  assumes "draws_ok rnd"
  shows "\<exists>s' rnd'. ticks cfgs rnd (resetSimulation s) = Inr (s', rnd')
           \<and> t s' = length cfgs
           \<and> length (history s') \<le> HISTORY_POINTS
           \<and> length (history s') = min (length cfgs) HISTORY_POINTS
           \<and> map h_t (history s') = [length cfgs - HISTORY_POINTS ..< length cfgs]"
proof -
  have "map h_t (history (resetSimulation s)) =
          [t (resetSimulation s) - min (t (resetSimulation s)) HISTORY_POINTS
            ..< t (resetSimulation s)]"
    by (simp add: reset_simps)
  from ticks_window [OF assms tables_ok_reset this, of cfgs] obtain s' rnd' where
    r: "ticks cfgs rnd (resetSimulation s) = Inr (s', rnd')" and t: "t s' = length cfgs"
    and h: "map h_t (history s') = [t s' - min (t s') HISTORY_POINTS ..< t s']"
    by (auto simp: reset_simps)
  have m: "map h_t (history s') = [length cfgs - HISTORY_POINTS ..< length cfgs]"
    using h t by (simp add: min_def)
  have "length (map h_t (history s')) = min (length cfgs) HISTORY_POINTS"
    unfolding m by simp
  then have "length (history s') = min (length cfgs) HISTORY_POINTS"
    by simp
  with r t m show ?thesis
    by simp
qed

theorem history_bounded_fifo_witness:
  "draws_ok (sconst (1 / 2))
   \<and> (\<exists>s' rnd'. ticks (replicate 183 cfg0) (sconst (1 / 2)) (resetSimulation initial_state)
                   = Inr (s', rnd')
        \<and> t s' = 183 \<and> length (history s') = 180 \<and> map h_t (history s') = [3 ..< 183])"
proof -
  have d: "draws_ok (sconst (1 / 2))"
    by (simp add: draws_ok_def)
  from history_bounded_fifo [OF d, of "replicate 183 cfg0" initial_state] obtain s' rnd' where
    "ticks (replicate 183 cfg0) (sconst (1 / 2)) (resetSimulation initial_state) = Inr (s', rnd')"
    and "t s' = 183" and "length (history s') = 180" and "map h_t (history s') = [3 ..< 183]"
    by (auto simp: HISTORY_POINTS_def simp del: upt_rec_numeral)
  with d show ?thesis
    by blast
qed

subsection \<open>Learning frozen\<close>

lemma stepSimulation_InrD:
  assumes "stepSimulation cfg rnd s = Inr (s', rnd')"
  shows "s' = tick_result cfg rnd s"
    and "rnd' = snd (snd (selectActions (applySettings cfg s) rnd))"
  using assms by (simp_all add: stepSimulation_cases split: if_splits)

text \<open>
  C4: in a run whose every tick has \<open>freeze\<close> set, no tick throws and both value tables are
  the same lists after the run as before it.
\<close>

theorem frozen_tables_unchanged:
  assumes "draws_ok rnd" and "tables_ok s" and "\<forall>cfg \<in> set cfgs. freeze cfg"
  shows "\<exists>s' rnd'. ticks cfgs rnd s = Inr (s', rnd')
           \<and> q (tx s') = q (tx s) \<and> q (jam s') = q (jam s)"
  using assms
proof (induction cfgs arbitrary: rnd s)
  case Nil
  then show ?case by simp
next
  case (Cons cfg cfgs)
  let ?s1 = "tick_result cfg rnd s"
  let ?r1 = "snd (snd (selectActions (applySettings cfg s) rnd))"
  have fr: "freeze cfg" and rest: "\<forall>c \<in> set cfgs. freeze c"
    using Cons.prems(3) by simp_all
  have step: "stepSimulation cfg rnd s = Inr (?s1, ?r1)"
    using Cons.prems(1,2) by (rule stepSimulation_Inr)
  have d: "draws_ok ?r1"
    using Cons.prems(1,2) by (simp add: selectActions_bounds(3) tables_ok_applySettings)
  have ok: "tables_ok ?s1"
    using Cons.prems(1,2) by (rule tables_ok_tick_result)
  have same: "q (tx ?s1) = q (tx s)" "q (jam ?s1) = q (jam s)"
    using fr by (simp_all add: tick_result_tx_q tick_result_jam_q)
  from Cons.IH [OF d ok rest] obtain s' rnd' where
    "ticks cfgs ?r1 ?s1 = Inr (s', rnd')" and "q (tx s') = q (tx ?s1)"
    and "q (jam s') = q (jam ?s1)"
    by blast
  then show ?case
    using step same by simp
qed

theorem frozen_tables_unchanged_witness:
  "draws_ok (sconst (1 / 2)) \<and> tables_ok (resetSimulation initial_state)
   \<and> freeze (cfg0\<lparr>freeze := True\<rparr>)
   \<and> (\<exists>s' rnd'. ticks [cfg0\<lparr>freeze := True\<rparr>, cfg0\<lparr>freeze := True\<rparr>] (sconst (1 / 2))
                    (resetSimulation initial_state) = Inr (s', rnd')
        \<and> q (tx s') = replicate 108 (Num 0) \<and> q (jam s') = replicate 144 (Num 0))"
proof -
  have d: "draws_ok (sconst (1 / 2))"
    by (simp add: draws_ok_def)
  have f: "\<forall>cfg \<in> set [cfg0\<lparr>freeze := True\<rparr>, cfg0\<lparr>freeze := True\<rparr>]. freeze cfg"
    by simp
  from frozen_tables_unchanged [OF d tables_ok_reset f, of initial_state]
  show ?thesis
    using d by (simp add: tables_ok_reset reset_simps length_TX_ACTIONS length_JAM_ACTIONS)
qed

lemma mutate_simps:
  "length (q (jam (fst (mutateBtn_click rnd s)))) = length (q (jam s))"
  "q (tx (fst (mutateBtn_click rnd s))) = q (tx s)"
  "eps (jam (fst (mutateBtn_click rnd s))) = eps (jam s)"
  "lr (jam (fst (mutateBtn_click rnd s))) = lr (jam s)"
  by (simp_all add: mutateBtn_click_def Let_def)

lemma reachable_tables_ok: "reachable s \<Longrightarrow> tables_ok s"
proof (induction rule: reachable.induct)
  case r_init
  show ?case by (simp add: tables_ok_def initial_state_def)
next
  case (r_reset s)
  show ?case by (rule tables_ok_reset)
next
  case (r_step s rnd cfg s' rnd')
  then show ?case
    using tables_ok_tick_result stepSimulation_InrD(1) by blast
next
  case (r_mutate s rnd)
  then show ?case by (simp add: tables_ok_def mutate_simps)
next
  case (r_pause s)
  then show ?case by (simp add: tables_ok_def pauseBtn_click_def)
next
  case (r_freeze s b)
  then show ?case by (simp add: tables_ok_def freezeLearningToggle_change_def)
next
  case (r_adaptive s b)
  then show ?case by (simp add: tables_ok_def jamAdaptiveToggle_change_def)
qed

lemma reachable_jam_params: "reachable s \<Longrightarrow> eps (jam s) = 0.12 \<and> lr (jam s) = 0.14"
proof (induction rule: reachable.induct)
  case r_init
  show ?case by (simp add: initial_state_def)
next
  case (r_reset s)
  then show ?case by (simp add: reset_simps)
next
  case (r_step s rnd cfg s' rnd')
  then show ?case
    using stepSimulation_InrD(1) [of cfg rnd s s' rnd'] by (simp add: tick_result_simps)
next
  case (r_mutate s rnd)
  then show ?case by (simp add: mutate_simps)
next
  case (r_pause s)
  then show ?case by (simp add: pauseBtn_click_def)
next
  case (r_freeze s b)
  then show ?case by (simp add: freezeLearningToggle_change_def)
next
  case (r_adaptive s b)
  then show ?case by (simp add: jamAdaptiveToggle_change_def)
qed

subsection \<open>Action selection\<close>

lemma evaluate_simps:
  "o_txBin (evaluate cfg a b) = mapFreqSlotToBin (fSlot a)"
  "o_jamCenter (evaluate cfg a b) = mapFreqSlotToBin (fSlot b)"
  "o_jamSpanBins (evaluate cfg a b) = min (span' b) (jamMaxSpan cfg)"
  "o_txPower (evaluate cfg a b) = txMaxPower cfg * p a"
  "o_jamPower (evaluate cfg a b) = jamMaxPower cfg * p b"
  "o_noisePower (evaluate cfg a b) = noiseDensity cfg * (bwMHz cfg * 1000000)"
  "o_overlapFactor (evaluate cfg a b) =
     computeOverlap (mapFreqSlotToBin (fSlot a)) (mapFreqSlotToBin (fSlot b))
       (min (span' b) (jamMaxSpan cfg))"
  by (simp_all add: evaluate_def Let_def)

lemma tick_result_lastAction:
  "lastAction (tx (tick_result cfg rnd s)) =
     (let a = TX_ACTIONS ! fst (selectActions (applySettings cfg s) rnd)
      in Some \<lparr>fSlot = fSlot a, p = p a, mod' = mod' a, txBin = mapFreqSlotToBin (fSlot a)\<rparr>)"
  "lastAction (jam (tick_result cfg rnd s)) =
     (let b = JAM_ACTIONS ! fst (snd (selectActions (applySettings cfg s) rnd))
      in Some \<lparr>fSlot = fSlot b, p = p b, span' = span' b,
               jamCenter = mapFreqSlotToBin (fSlot b),
               spanBins = min (span' b) (jamMaxSpan cfg)\<rparr>)"
  by (simp_all add: tick_result_def Let_def record_tick_def evaluate_simps)

lemma random_index_margin:
  fixes u :: real and m :: real
  assumes "0 \<le> u" and "0 \<le> m" and "m \<le> 1"
  shows "real (nat \<lfloor>u * real n\<rfloor>) * (1 - m) \<le> u * real n"
    and "u * real n < real (Suc (nat \<lfloor>u * real n\<rfloor>)) * (1 + m)"
    and "real k * (1 + m) \<le> u * real n \<and> u * real n < real (Suc k) * (1 - m)
           \<Longrightarrow> nat \<lfloor>u * real n\<rfloor> = k"
proof -
  let ?x = "u * real n"
  let ?j = "nat \<lfloor>?x\<rfloor>"
  have x0: "0 \<le> ?x"
    using assms(1) by simp
  then have j: "real ?j = real_of_int \<lfloor>?x\<rfloor>"
    by simp
  have lo: "real ?j \<le> ?x" and hi: "?x < real ?j + 1"
    unfolding j by linarith+
  have "real ?j * (1 - m) \<le> real ?j * 1"
    using assms(2) by (intro mult_left_mono) simp_all
  with lo show "real ?j * (1 - m) \<le> ?x"
    by simp
  have "real (Suc ?j) * 1 \<le> real (Suc ?j) * (1 + m)"
    using assms(2) by (intro mult_left_mono) simp_all
  moreover have "?x < real (Suc ?j) * 1"
    using hi by simp
  ultimately show "?x < real (Suc ?j) * (1 + m)"
    by (rule less_le_trans [rotated])
  show "?j = k" if "real k * (1 + m) \<le> ?x \<and> ?x < real (Suc k) * (1 - m)"
  proof -
    have "real k * 1 \<le> real k * (1 + m)"
      using assms(2) by (intro mult_left_mono) simp_all
    with that have a: "real k \<le> ?x"
      by simp
    have "real (Suc k) * (1 - m) \<le> real (Suc k) * 1"
      using assms(2) by (intro mult_left_mono) simp_all
    moreover have "?x < real (Suc k) * (1 - m)"
      using that by blast
    ultimately have "?x < real (Suc k) * 1"
      by (rule less_le_trans [rotated])
    then have b: "?x < real k + 1"
      by simp
    from a b have "\<lfloor>?x\<rfloor> = int k"
      by (simp add: floor_eq_iff)
    then show ?thesis
      by simp
  qed
qed

text \<open>
  C6: in a tick with \<open>cfg_jamAdaptive\<close> off, whatever \<open>freeze\<close> is, the jammer's table is left
  as it was, and the jammer's index is a function of the next draw \<open>u\<close> of the random source
  alone: an index \<open>j\<close> of the action space with \<open>j \<le> u * N < j + 1\<close>, so that every index has a
  cell of draws of the same width \<open>1 / N\<close>. The source rounds the product \<open>u * N\<close> to a double,
  so the bounds are stated with a relative margin of \<open>1 / 2 ^ 52\<close>, which covers that rounding:
  the index lies in the cell widened by the margin, and a draw in the cell narrowed by the
  margin gets that index.
\<close>

theorem nonadaptive_jammer_random:
  assumes "draws_ok rnd" and "tables_ok s" and "\<not> cfg_jamAdaptive cfg"
  shows "\<exists>s' rnd'. stepSimulation cfg rnd s = Inr (s', rnd')
           \<and> q (jam s') = q (jam s)
           \<and> (let u = shd (snd (pickAction (q (tx s)) (if freeze cfg then 0 else cfg_eps cfg) rnd));
                   j = fst (snd (selectActions (applySettings cfg s) rnd));
                   n = real (length JAM_ACTIONS);
                   m = 1 / 2 ^ 52
               in 0 \<le> u \<and> u < 1 \<and> j < length JAM_ACTIONS
                  \<and> map_option jam_action.truncate (lastAction (jam s')) = Some (JAM_ACTIONS ! j)
                  \<and> real j * (1 - m) \<le> u * n \<and> u * n < real (Suc j) * (1 + m)
                  \<and> (\<forall>k < length JAM_ACTIONS.
                        real k * (1 + m) \<le> u * n \<and> u * n < real (Suc k) * (1 - m)
                          \<longrightarrow> j = k))"
proof -
  let ?u = "shd (snd (pickAction (q (tx s)) (if freeze cfg then 0 else cfg_eps cfg) rnd))"
  let ?j = "fst (snd (selectActions (applySettings cfg s) rnd))"
  let ?n = "real (length JAM_ACTIONS)"
  let ?m = "1 / 2 ^ 52 :: real"
  let ?s' = "tick_result cfg rnd s"
  have step: "stepSimulation cfg rnd s =
                Inr (?s', snd (snd (selectActions (applySettings cfg s) rnd)))"
    using assms(1,2) by (rule stepSimulation_Inr)
  have u: "0 \<le> ?u" "?u < 1"
    using draws_ok_shd [OF pickAction_draws [OF assms(1)]] by blast+
  have m: "0 \<le> ?m" "?m \<le> 1"
    by simp_all
  have sel: "?j = nat \<lfloor>?u * ?n\<rfloor>"
    using assms(3) by (simp add: selectActions_jam applySettings_simps Let_def)
  have j: "?j < length JAM_ACTIONS"
    using assms(1) assms(2) [folded tables_ok_applySettings [of cfg s]]
    by (rule selectActions_bounds(2))
  have la: "map_option jam_action.truncate (lastAction (jam ?s')) = Some (JAM_ACTIONS ! ?j)"
    by (simp add: tick_result_lastAction Let_def jam_action.truncate_def)
  have lo: "real ?j * (1 - ?m) \<le> ?u * ?n"
    unfolding sel using u(1) m by (rule random_index_margin(1))
  have hi: "?u * ?n < real (Suc ?j) * (1 + ?m)"
    unfolding sel using u(1) m by (rule random_index_margin(2))
  have inner: "\<forall>k < length JAM_ACTIONS.
                 real k * (1 + ?m) \<le> ?u * ?n \<and> ?u * ?n < real (Suc k) * (1 - ?m) \<longrightarrow> ?j = k"
    unfolding sel using random_index_margin(3) [OF u(1) m] by blast
  have same: "q (jam ?s') = q (jam s)"
    using assms(3) by (simp add: tick_result_jam_q)
  show ?thesis
    unfolding Let_def
    by (rule exI [of _ ?s'], rule exI [of _ "snd (snd (selectActions (applySettings cfg s) rnd))"])
      (intro conjI step same u j la lo hi inner)
qed

theorem nonadaptive_jammer_random_witness:
  "draws_ok (sconst (129 / 256)) \<and> tables_ok (resetSimulation initial_state)
   \<and> \<not> cfg_jamAdaptive (cfg0\<lparr>cfg_jamAdaptive := False\<rparr>)
   \<and> (72::nat) < length JAM_ACTIONS
   \<and> real 72 * (1 + 1 / 2 ^ 52) \<le> 129 / 256 * real (length JAM_ACTIONS)
   \<and> 129 / 256 * real (length JAM_ACTIONS) < real (Suc 72) * (1 - 1 / 2 ^ 52)
   \<and> (\<exists>s' rnd'. stepSimulation (cfg0\<lparr>cfg_jamAdaptive := False\<rparr>) (sconst (129 / 256))
                    (resetSimulation initial_state) = Inr (s', rnd')
        \<and> q (jam s') = replicate 144 (Num 0)
        \<and> fst (snd (selectActions
                 (applySettings (cfg0\<lparr>cfg_jamAdaptive := False\<rparr>) (resetSimulation initial_state))
                 (sconst (129 / 256)))) = 72)"
proof -
  let ?c = "cfg0\<lparr>cfg_jamAdaptive := False\<rparr>"
  let ?s = "resetSimulation initial_state"
  let ?j = "fst (snd (selectActions (applySettings ?c ?s) (sconst (129 / 256))))"
  have d: "draws_ok (sconst (129 / 256))"
    by (simp add: draws_ok_def)
  have a: "\<not> cfg_jamAdaptive ?c"
    by simp
  have u: "shd (snd (pickAction (q (tx ?s)) (if freeze ?c then 0 else cfg_eps ?c)
             (sconst (129 / 256)))) = 129 / 256"
    by (simp add: pickAction_def cfg0_def)
  have k: "(72::nat) < length JAM_ACTIONS"
    by (simp add: length_JAM_ACTIONS)
  have cell: "real 72 * (1 + 1 / 2 ^ 52) \<le> 129 / 256 * real (length JAM_ACTIONS)
              \<and> 129 / 256 * real (length JAM_ACTIONS) < real (Suc 72) * (1 - 1 / 2 ^ 52)"
    by (simp add: length_JAM_ACTIONS)
  from nonadaptive_jammer_random [OF d tables_ok_reset a, of initial_state] obtain s' rnd' where
    step: "stepSimulation ?c (sconst (129 / 256)) ?s = Inr (s', rnd')"
    and same: "q (jam s') = q (jam ?s)"
    and inner: "\<forall>k < length JAM_ACTIONS.
                  real k * (1 + 1 / 2 ^ 52) \<le> 129 / 256 * real (length JAM_ACTIONS)
                  \<and> 129 / 256 * real (length JAM_ACTIONS) < real (Suc k) * (1 - 1 / 2 ^ 52)
                    \<longrightarrow> ?j = k"
    unfolding Let_def u by blast
  from inner k cell have "?j = 72"
    by blast
  with d a k cell step same show ?thesis
    by (auto simp: tables_ok_reset reset_simps length_JAM_ACTIONS)
qed

lemma selectActions_reachable:
  assumes "reachable s" and "cfg_jamAdaptive cfg"
  shows "selectActions (applySettings cfg s) rnd =
           (let txPick = pickAction (q (tx s)) (if freeze cfg then 0 else cfg_eps cfg) rnd;
                jamPick = pickAction (q (jam s)) (if freeze cfg then 0 else 0.12) (snd txPick)
            in (fst txPick, fst jamPick, snd jamPick))"
proof -
  have e: "eps (jam s) = 0.12"
    using reachable_jam_params [OF assms(1)] by blast
  show ?thesis
    by (simp add: prod_eq_iff selectActions_tx selectActions_jam selectActions_rnd
        applySettings_simps Let_def assms(2) e)
qed

text \<open>
  C5 (amended): in a tick with \<open>cfg_jamAdaptive\<close> on, both indices come from \<open>pickAction\<close> on
  the agent's own table; the exploration rate is 0 for both when learning is frozen, and
  otherwise the configuration's rate for the transmitter but the jammer's own fixed rate
  0.12 for the jammer.
\<close>

theorem adaptive_jammer_selection:
  assumes "reachable s" and "draws_ok rnd" and "cfg_jamAdaptive cfg"
  shows "\<exists>s' rnd'. stepSimulation cfg rnd s = Inr (s', rnd')
           \<and> (let txPick = pickAction (q (tx s)) (if freeze cfg then 0 else cfg_eps cfg) rnd;
                   jamPick = pickAction (q (jam s)) (if freeze cfg then 0 else 0.12) (snd txPick)
               in selectActions (applySettings cfg s) rnd = (fst txPick, fst jamPick, snd jamPick)
                  \<and> rnd' = snd jamPick
                  \<and> map_option tx_action.truncate (lastAction (tx s'))
                      = Some (TX_ACTIONS ! fst txPick)
                  \<and> map_option jam_action.truncate (lastAction (jam s'))
                      = Some (JAM_ACTIONS ! fst jamPick))"
proof -
  let ?s' = "tick_result cfg rnd s"
  let ?sel = "selectActions (applySettings cfg s) rnd"
  let ?tp = "pickAction (q (tx s)) (if freeze cfg then 0 else cfg_eps cfg) rnd"
  let ?jp = "pickAction (q (jam s)) (if freeze cfg then 0 else 0.12) (snd ?tp)"
  have step: "stepSimulation cfg rnd s = Inr (?s', snd (snd ?sel))"
    using assms(2) reachable_tables_ok [OF assms(1)] by (rule stepSimulation_Inr)
  have sel: "?sel = (fst ?tp, fst ?jp, snd ?jp)"
    using selectActions_reachable [OF assms(1,3), of rnd] by (simp only: Let_def)
  have "map_option tx_action.truncate (lastAction (tx ?s')) = Some (TX_ACTIONS ! fst ?sel)"
    by (simp add: tick_result_lastAction Let_def tx_action.truncate_def)
  then have a: "map_option tx_action.truncate (lastAction (tx ?s')) = Some (TX_ACTIONS ! fst ?tp)"
    by (simp only: sel fst_conv)
  have "map_option jam_action.truncate (lastAction (jam ?s'))
          = Some (JAM_ACTIONS ! fst (snd ?sel))"
    by (simp add: tick_result_lastAction Let_def jam_action.truncate_def)
  then have b: "map_option jam_action.truncate (lastAction (jam ?s'))
                  = Some (JAM_ACTIONS ! fst ?jp)"
    by (simp only: sel fst_conv snd_conv)
  have "stepSimulation cfg rnd s = Inr (?s', snd ?jp)"
    using step by (simp only: sel fst_conv snd_conv)
  with sel a b show ?thesis
    unfolding Let_def by blast
qed

lemma argMax_replicate: "argMax (replicate n v) = 0"
proof -
  have "fold (\<lambda>i best. if js_gt (js_get (replicate n v) i) (js_get (replicate n v) best)
                        then i else best) js 0 = 0" if "\<forall>i \<in> set js. i < n" for js
    using that
    by (induction js) (auto simp: js_get_def js_gt_def split: option.splits)
  then show ?thesis
    by (simp add: argMax_def)
qed

theorem adaptive_jammer_selection_witness:
  "reachable (resetSimulation initial_state) \<and> draws_ok (sconst (1 / 2))
   \<and> cfg_jamAdaptive cfg0
   \<and> (\<exists>s' rnd'. stepSimulation cfg0 (sconst (1 / 2)) (resetSimulation initial_state)
                    = Inr (s', rnd')
        \<and> selectActions (applySettings cfg0 (resetSimulation initial_state)) (sconst (1 / 2))
            = (54, 0, sconst (1 / 2)))"
proof -
  have r: "reachable (resetSimulation initial_state)"
    by (intro r_reset r_init)
  have d: "draws_ok (sconst (1 / 2))"
    by (simp add: draws_ok_def)
  have a: "cfg_jamAdaptive cfg0"
    by (simp add: cfg0_def)
  from adaptive_jammer_selection [OF r d a]
  show ?thesis
    using r d a
    by (auto simp: pickAction_def cfg0_def reset_simps length_TX_ACTIONS argMax_replicate)
qed

text \<open>
  C5 as stated gives the jammer the configuration's exploration rate. With that rate at 1
  and every draw 1/2 the stated rule explores and picks index 72, while the tick picks the
  greedy index 0, because 1/2 is not below the jammer's rate 0.12.
\<close>

theorem jammer_ignores_cfg_eps_counterexample:
  "fst (snd (selectActions (applySettings cfg0 (resetSimulation initial_state))
                            (sconst (1 / 2)))) = 0
   \<and> fst (pickAction (q (jam (resetSimulation initial_state)))
            (if freeze cfg0 then 0 else cfg_eps cfg0)
            (snd (pickAction (q (tx (resetSimulation initial_state)))
                    (if freeze cfg0 then 0 else cfg_eps cfg0) (sconst (1 / 2))))) = 72"
  by (simp add: selectActions_jam applySettings_simps Let_def pickAction_def cfg0_def
      reset_simps initial_state_def length_JAM_ACTIONS length_TX_ACTIONS argMax_replicate)

subsection \<open>Learning rates\<close>

lemma selectActions_cfg_lr:
  "selectActions (applySettings (cfg\<lparr>cfg_lr := x\<rparr>) s) rnd = selectActions (applySettings cfg s) rnd"
  by (simp add: prod_eq_iff selectActions_tx selectActions_jam selectActions_rnd
      applySettings_simps Let_def)

lemma evaluate_cfg_lr: "evaluate (cfg\<lparr>cfg_lr := x\<rparr>) a b = evaluate cfg a b"
  by (simp add: evaluate_def Let_def)

lemma td_update_Num:
  assumes "i < length qt" and "qt ! i = Num v"
  shows "td_update qt i rate r = qt[i := Num (v + rate * (r - v))]"
  using assms by (simp add: td_update_def js_set_def js_get_def js_arith_def)

text \<open>
  C10: in every tick of a reachable state the configuration's learning rate is the rate of
  the transmitter's update only: a numeric cell \<open>v\<close> of the transmitter becomes
  \<open>v + cfg_lr * (txReward - v)\<close>. The jammer's update, when there is one, uses the rate 0.14:
  its cell \<open>v\<close> becomes \<open>v + 0.14 * (jamReward - v)\<close>, and the jammer's table after the tick is
  the same whatever learning rate the configuration carries.
\<close>

theorem jammer_fixed_learning_rate:
  assumes "reachable s" and "draws_ok rnd"
  shows "\<exists>s' rnd'. stepSimulation cfg rnd s = Inr (s', rnd')
           \<and> (let i = fst (selectActions (applySettings cfg s) rnd);
                   j = fst (snd (selectActions (applySettings cfg s) rnd));
                   oc = evaluate cfg (TX_ACTIONS ! i) (JAM_ACTIONS ! j)
               in q (tx s') = (if freeze cfg then q (tx s)
                               else td_update (q (tx s)) i (cfg_lr cfg) (o_txReward oc))
                  \<and> q (jam s') = (if \<not> freeze cfg \<and> cfg_jamAdaptive cfg
                                   then td_update (q (jam s)) j 0.14 (o_jamReward oc)
                                   else q (jam s))
                  \<and> (\<forall>v. \<not> freeze cfg \<and> i < length (q (tx s)) \<and> q (tx s) ! i = Num v \<longrightarrow>
                         q (tx s') =
                           (q (tx s))[i := Num (v + cfg_lr cfg * (o_txReward oc - v))])
                  \<and> (\<forall>v. \<not> freeze cfg \<and> cfg_jamAdaptive cfg
                          \<and> j < length (q (jam s)) \<and> q (jam s) ! j = Num v \<longrightarrow>
                         q (jam s') =
                           (q (jam s))[j := Num (v + 0.14 * (o_jamReward oc - v))])
                  \<and> lr (tx s') = cfg_lr cfg \<and> lr (jam s') = 0.14
                  \<and> (\<forall>x. \<exists>s'' rnd''.
                         stepSimulation (cfg\<lparr>cfg_lr := x\<rparr>) rnd s = Inr (s'', rnd'')
                         \<and> q (jam s'') = q (jam s')))"
proof -
  let ?s' = "tick_result cfg rnd s"
  let ?sel = "selectActions (applySettings cfg s) rnd"
  let ?oc = "evaluate cfg (TX_ACTIONS ! fst ?sel) (JAM_ACTIONS ! fst (snd ?sel))"
  have ok: "tables_ok s"
    using assms(1) by (rule reachable_tables_ok)
  have rate: "lr (jam s) = 0.14"
    using reachable_jam_params [OF assms(1)] by blast
  have step: "stepSimulation cfg rnd s = Inr (?s', snd (snd ?sel))"
    using assms(2) ok by (rule stepSimulation_Inr)
  have txq: "q (tx ?s') =
      (if freeze cfg then q (tx s)
       else td_update (q (tx s)) (fst ?sel) (cfg_lr cfg) (o_txReward ?oc))"
    by (rule tick_result_tx_q)
  have jamq: "q (jam ?s') =
      (if \<not> freeze cfg \<and> cfg_jamAdaptive cfg
       then td_update (q (jam s)) (fst (snd ?sel)) 0.14 (o_jamReward ?oc)
       else q (jam s))"
    unfolding tick_result_jam_q rate ..
  have txcell: "\<forall>v. \<not> freeze cfg \<and> fst ?sel < length (q (tx s)) \<and> q (tx s) ! fst ?sel = Num v
                  \<longrightarrow> q (tx ?s') =
                        (q (tx s))[fst ?sel := Num (v + cfg_lr cfg * (o_txReward ?oc - v))]"
  proof (intro allI impI)
    fix v
    assume a: "\<not> freeze cfg \<and> fst ?sel < length (q (tx s)) \<and> q (tx s) ! fst ?sel = Num v"
    then have "q (tx ?s') = td_update (q (tx s)) (fst ?sel) (cfg_lr cfg) (o_txReward ?oc)"
      using txq by simp
    also have "\<dots> = (q (tx s))[fst ?sel := Num (v + cfg_lr cfg * (o_txReward ?oc - v))]"
      using a by (intro td_update_Num) simp_all
    finally show "q (tx ?s') =
        (q (tx s))[fst ?sel := Num (v + cfg_lr cfg * (o_txReward ?oc - v))]" .
  qed
  have jamcell: "\<forall>v. \<not> freeze cfg \<and> cfg_jamAdaptive cfg
                    \<and> fst (snd ?sel) < length (q (jam s)) \<and> q (jam s) ! fst (snd ?sel) = Num v
                  \<longrightarrow> q (jam ?s') =
                        (q (jam s))[fst (snd ?sel) := Num (v + 0.14 * (o_jamReward ?oc - v))]"
  proof (intro allI impI)
    fix v
    assume a: "\<not> freeze cfg \<and> cfg_jamAdaptive cfg
                 \<and> fst (snd ?sel) < length (q (jam s)) \<and> q (jam s) ! fst (snd ?sel) = Num v"
    then have "q (jam ?s') = td_update (q (jam s)) (fst (snd ?sel)) 0.14 (o_jamReward ?oc)"
      using jamq by simp
    also have "\<dots> = (q (jam s))[fst (snd ?sel) := Num (v + 0.14 * (o_jamReward ?oc - v))]"
      using a by (intro td_update_Num) simp_all
    finally show "q (jam ?s') =
        (q (jam s))[fst (snd ?sel) := Num (v + 0.14 * (o_jamReward ?oc - v))]" .
  qed
  have rates: "lr (tx ?s') = cfg_lr cfg" "lr (jam ?s') = 0.14"
    unfolding tick_result_simps rate by (rule refl)+
  have indep: "\<exists>s'' rnd''. stepSimulation (cfg\<lparr>cfg_lr := x\<rparr>) rnd s = Inr (s'', rnd'')
                 \<and> q (jam s'') = q (jam ?s')" for x
  proof -
    have "stepSimulation (cfg\<lparr>cfg_lr := x\<rparr>) rnd s =
            Inr (tick_result (cfg\<lparr>cfg_lr := x\<rparr>) rnd s,
                 snd (snd (selectActions (applySettings (cfg\<lparr>cfg_lr := x\<rparr>) s) rnd)))"
      using assms(2) ok by (rule stepSimulation_Inr)
    moreover have "q (jam (tick_result (cfg\<lparr>cfg_lr := x\<rparr>) rnd s)) = q (jam ?s')"
      by (simp add: tick_result_jam_q selectActions_cfg_lr evaluate_cfg_lr)
    ultimately show ?thesis by blast
  qed
  show ?thesis
    unfolding Let_def
    by (rule exI [of _ ?s'], rule exI [of _ "snd (snd ?sel)"])
      (intro conjI step txq jamq txcell jamcell rates allI indep)
qed

lemma evaluate_cfg1:
  "o_txReward (evaluate cfg1 (TX_ACTIONS ! 0) (JAM_ACTIONS ! 0)) = - (3009 / 1000)"
  "o_jamReward (evaluate cfg1 (TX_ACTIONS ! 0) (JAM_ACTIONS ! 0)) = 49 / 940"
proof -
  have a: "TX_ACTIONS ! 0 = \<lparr>fSlot = 0, p = 0.45, mod' = BPSK\<rparr>"
    by (simp add: TX_ACTIONS_def buildActionSpace_def TX_FREQ_SLOTS_def MODS_def
        TX_POWER_LEVELS_def upto.simps)
  have b: "JAM_ACTIONS ! 0 = \<lparr>fSlot = 0, p = 0.35, span' = 2\<rparr>"
    by (simp add: JAM_ACTIONS_def buildJamActions_def TX_FREQ_SLOTS_def JAM_SPANS_def
        JAM_POWER_LEVELS_def upto.simps)
  have ov: "computeOverlap 2 2 2 = 1 / 2"
    by (simp add: computeOverlap_def BINS_def Let_def)
  have m: "mapFreqSlotToBin 0 = 2"
    by (simp add: mapFreqSlotToBin_def BINS_def TX_FREQ_SLOTS_def Let_def)
  show "o_txReward (evaluate cfg1 (TX_ACTIONS ! 0) (JAM_ACTIONS ! 0)) = - (3009 / 1000)"
    unfolding a b by (simp add: evaluate_def Let_def cfg1_def m ov)
  show "o_jamReward (evaluate cfg1 (TX_ACTIONS ! 0) (JAM_ACTIONS ! 0)) = 49 / 940"
    unfolding a b by (simp add: evaluate_def Let_def cfg1_def m ov)
qed

theorem jammer_fixed_learning_rate_witness:
  "reachable (resetSimulation initial_state) \<and> draws_ok (sconst (1 / 2))
   \<and> \<not> freeze cfg1 \<and> cfg_jamAdaptive cfg1
   \<and> (\<exists>s' rnd'. stepSimulation cfg1 (sconst (1 / 2)) (resetSimulation initial_state)
                    = Inr (s', rnd')
        \<and> q (tx s') = (replicate 108 (Num 0))[0 := Num (- (3009 / 2000))]
        \<and> q (jam s') = (replicate 144 (Num 0))[0 := Num (343 / 47000)]
        \<and> lr (tx s') = 1 / 2 \<and> lr (jam s') = 0.14)"
proof -
  let ?s = "resetSimulation initial_state"
  have r: "reachable ?s"
    by (intro r_reset r_init)
  have d: "draws_ok (sconst (1 / 2))"
    by (simp add: draws_ok_def)
  have c: "\<not> freeze cfg1" "cfg_jamAdaptive cfg1" "cfg_lr cfg1 = 1 / 2"
    by (simp_all add: cfg1_def)
  have sel: "fst (selectActions (applySettings cfg1 ?s) (sconst (1 / 2))) = 0"
    "fst (snd (selectActions (applySettings cfg1 ?s) (sconst (1 / 2)))) = 0"
    by (simp_all add: selectActions_tx selectActions_jam applySettings_simps Let_def
        pickAction_def cfg1_def reset_simps initial_state_def argMax_replicate)
  have cells: "(0::nat) < length (q (tx ?s))" "q (tx ?s) ! 0 = Num 0"
    "(0::nat) < length (q (jam ?s))" "q (jam ?s) ! 0 = Num 0"
    by (simp_all add: reset_simps length_TX_ACTIONS length_JAM_ACTIONS)
  from jammer_fixed_learning_rate [OF r d, of cfg1] obtain s' rnd' where
    step: "stepSimulation cfg1 (sconst (1 / 2)) ?s = Inr (s', rnd')"
    and tx: "\<forall>v. \<not> freeze cfg1 \<and> 0 < length (q (tx ?s)) \<and> q (tx ?s) ! 0 = Num v \<longrightarrow>
               q (tx s') = (q (tx ?s))[0 := Num (v + cfg_lr cfg1 *
                 (o_txReward (evaluate cfg1 (TX_ACTIONS ! 0) (JAM_ACTIONS ! 0)) - v))]"
    and jam: "\<forall>v. \<not> freeze cfg1 \<and> cfg_jamAdaptive cfg1
                \<and> 0 < length (q (jam ?s)) \<and> q (jam ?s) ! 0 = Num v \<longrightarrow>
               q (jam s') = (q (jam ?s))[0 := Num (v + 0.14 *
                 (o_jamReward (evaluate cfg1 (TX_ACTIONS ! 0) (JAM_ACTIONS ! 0)) - v))]"
    and rates: "lr (tx s') = cfg_lr cfg1" "lr (jam s') = 0.14"
    unfolding Let_def sel by blast
  have "q (tx s') = (q (tx ?s))[0 := Num (0 + cfg_lr cfg1 *
          (o_txReward (evaluate cfg1 (TX_ACTIONS ! 0) (JAM_ACTIONS ! 0)) - 0))]"
    using tx c(1) cells(1,2) by blast
  then have t1: "q (tx s') = (replicate 108 (Num 0))[0 := Num (- (3009 / 2000))]"
    by (simp add: evaluate_cfg1 c(3) reset_simps length_TX_ACTIONS)
  have "q (jam s') = (q (jam ?s))[0 := Num (0 + 0.14 *
          (o_jamReward (evaluate cfg1 (TX_ACTIONS ! 0) (JAM_ACTIONS ! 0)) - 0))]"
    using jam c(1,2) cells(3,4) by blast
  then have t2: "q (jam s') = (replicate 144 (Num 0))[0 := Num (343 / 47000)]"
    by (simp add: evaluate_cfg1 reset_simps length_JAM_ACTIONS)
  show ?thesis
    using r d c step t1 t2 rates by auto
qed

subsection \<open>A tick before any reset\<close>

lemma tables_ok_initial: "tables_ok initial_state"
  by (simp add: tables_ok_def initial_state_def)

lemma td_update_Nil: "td_update [] 0 rate r = [NaN]"
  by (simp add: td_update_def js_set_def js_get_def js_arith_def)

lemma pickAction_Nil: "fst (pickAction [] e rnd) = 0"
  by (simp add: pickAction_def argMax_Nil)

lemma selectActions_initial:
  "fst (selectActions (applySettings cfg initial_state) rnd) = 0"
  "cfg_jamAdaptive cfg \<Longrightarrow> fst (snd (selectActions (applySettings cfg initial_state) rnd)) = 0"
  by (simp_all add: selectActions_tx selectActions_jam applySettings_simps Let_def
      initial_state_def pickAction_Nil)

text \<open>
  The tables themselves are never checked. The part of the tick after \<^verbatim>\<open>readSettings\<close>,
  handed a configuration on the tables of the loaded script (a state that no run of the
  page reaches, see below), returns normally: index 0 for each agent that selects from its
  empty table, and NaN in each table that is updated.
\<close>

lemma engine_tick_on_empty_tables:
  assumes "draws_ok rnd"
  shows "\<exists>s' rnd'. stepSimulation cfg rnd initial_state = Inr (s', rnd')
           \<and> t s' = 1 \<and> map h_t (history s') = [0]
           \<and> fst (selectActions (applySettings cfg initial_state) rnd) = 0
           \<and> (if cfg_jamAdaptive cfg
                then fst (snd (selectActions (applySettings cfg initial_state) rnd)) = 0
                else True)
           \<and> q (tx s') = (if freeze cfg then [] else [NaN])
           \<and> q (jam s') = (if \<not> freeze cfg \<and> cfg_jamAdaptive cfg then [NaN] else [])"
proof -
  let ?s' = "tick_result cfg rnd initial_state"
  have step: "stepSimulation cfg rnd initial_state =
                Inr (?s', snd (snd (selectActions (applySettings cfg initial_state) rnd)))"
    using assms tables_ok_initial by (rule stepSimulation_Inr)
  have e: "q (tx initial_state) = []" "q (jam initial_state) = []" "t initial_state = 0"
    "history initial_state = []"
    by (simp_all add: initial_state_def)
  have "t ?s' = 1"
    by (simp add: tick_result_simps e)
  moreover have "map h_t (history ?s') = [0]"
    by (simp add: tick_result_ticks e HISTORY_POINTS_def)
  moreover have "q (tx ?s') = (if freeze cfg then [] else [NaN])"
    by (simp add: tick_result_tx_q selectActions_initial e td_update_Nil)
  moreover have "q (jam ?s') = (if \<not> freeze cfg \<and> cfg_jamAdaptive cfg then [NaN] else [])"
    by (simp add: tick_result_jam_q selectActions_initial e td_update_Nil)
  ultimately show ?thesis
    using step selectActions_initial [of cfg rnd] by simp
qed











lemma setupDomRefs_doc0:
  "i \<in> set dom_ids \<Longrightarrow> setupDomRefs doc0 Map.empty i = Some \<lparr>el_value = 1, el_checked = False\<rparr>"
  by (auto simp: setupDomRefs_def dom_ids_def doc0_def)

text \<open>After \<^verbatim>\<open>main\<close> in a complete document the tick of the page runs.\<close>

lemma main_then_tick:
  shows "main doc0 Map.empty initial_state =
           Inr (setupDomRefs doc0 Map.empty, resetSimulation initial_state)"
    and "draws_ok rnd \<Longrightarrow>
           \<exists>cfg. readSettings (setupDomRefs doc0 Map.empty) = Inr cfg
             \<and> stepSimulation_page (setupDomRefs doc0 Map.empty) rnd (resetSimulation initial_state) =
                 Inr (tick_result cfg rnd (resetSimulation initial_state),
                      snd (snd (selectActions (applySettings cfg (resetSimulation initial_state)) rnd)))"
proof -
  have ids: "setupDomRefs doc0 Map.empty i \<noteq> None" if "i \<in> set dom_ids" for i
    using setupDomRefs_doc0 [OF that] by simp
  show "main doc0 Map.empty initial_state =
          Inr (setupDomRefs doc0 Map.empty, resetSimulation initial_state)"
    by (simp add: main_def Let_def resetSimulation_page_def ids dom_ids_def)
  let ?c = "\<lparr>snrDb = 1, bwMHz = 1, noiseDensity = 1, jamMaxPower = 1, jamMaxSpan = 1,
             txMaxPower = 1, cfg_lr = 1, cfg_eps = 1, freeze = False, cfg_jamAdaptive = False\<rparr>"
  have rs: "readSettings (setupDomRefs doc0 Map.empty) = Inr ?c"
    by (simp add: readSettings_def bind_err_def read_value_def read_checked_def
        setupDomRefs_doc0 dom_ids_def)
  show "\<exists>cfg. readSettings (setupDomRefs doc0 Map.empty) = Inr cfg
          \<and> stepSimulation_page (setupDomRefs doc0 Map.empty) rnd (resetSimulation initial_state) =
              Inr (tick_result cfg rnd (resetSimulation initial_state),
                   snd (snd (selectActions (applySettings cfg (resetSimulation initial_state)) rnd)))"
    if "draws_ok rnd"
    using stepSimulation_Inr [OF that tables_ok_reset, of ?c initial_state]
    by (simp add: stepSimulation_page_def rs ids dom_ids_def)
qed



subsection \<open>Rewards\<close>

lemma record_tick_last:
  "last (history (record_tick s a b oc)) =
     \<lparr>h_t = t s, h_throughputMbps = o_throughputMbps oc,
      h_jammingIntensity = o_jammingIntensity oc, h_sinrDb = linToDb (o_sinr oc),
      h_overlapFactor = o_overlapFactor oc,
      h_tx = \<lparr>fSlot = fSlot a, p = p a, mod' = mod' a, txBin = o_txBin oc\<rparr>,
      h_jam = \<lparr>fSlot = fSlot b, p = p b, span' = span' b, jamCenter = o_jamCenter oc,
               spanBins = o_jamSpanBins oc\<rparr>\<rparr>"
proof (cases "history s")
  case Nil
  then show ?thesis
    by (simp add: record_tick_def Let_def HISTORY_POINTS_def)
next
  case (Cons x xs)
  then show ?thesis
    by (simp add: record_tick_def Let_def)
qed

lemma tick_result_last:
  "last (history (tick_result cfg rnd s)) =
     (let a = TX_ACTIONS ! fst (selectActions (applySettings cfg s) rnd);
          b = JAM_ACTIONS ! fst (snd (selectActions (applySettings cfg s) rnd));
          oc = evaluate cfg a b
      in \<lparr>h_t = t s, h_throughputMbps = o_throughputMbps oc,
          h_jammingIntensity = o_jammingIntensity oc, h_sinrDb = linToDb (o_sinr oc),
          h_overlapFactor = o_overlapFactor oc,
          h_tx = \<lparr>fSlot = fSlot a, p = p a, mod' = mod' a, txBin = o_txBin oc\<rparr>,
          h_jam = \<lparr>fSlot = fSlot b, p = p b, span' = span' b, jamCenter = o_jamCenter oc,
                   spanBins = o_jamSpanBins oc\<rparr>\<rparr>)"
  unfolding tick_result_def Let_def
  by (simp only: record_tick_last learn_simps applySettings_simps)

lemma evaluate_rewards:
  "o_txReward (evaluate cfg a b) =
     o_throughputMbps (evaluate cfg a b) - 0.02 * (txMaxPower cfg * p a)
       - 6 * o_overlapFactor (evaluate cfg a b)"
  "o_jamReward (evaluate cfg a b) =
     o_jammingIntensity (evaluate cfg a b) * (jamMaxPower cfg * p b)
       - 0.08 * o_throughputMbps (evaluate cfg a b)"
  by (simp_all add: evaluate_def Let_def)

text \<open>
  C2: in every tick the transmitter's reward is the throughput minus 0.02 times the resolved
  transmitter power (\<open>txMaxPower\<close> times the action's power level) minus 6 times the overlap
  factor, and the jammer's reward is the jamming intensity times the resolved jammer power
  minus 0.08 times the throughput. The throughput, intensity and overlap are the ones the
  tick stores in its history entry, and these rewards are the ones the updates use.
\<close>

theorem tick_rewards:
  assumes "draws_ok rnd" and "tables_ok s"
  shows "\<exists>s' rnd'. stepSimulation cfg rnd s = Inr (s', rnd')
           \<and> (let i = fst (selectActions (applySettings cfg s) rnd);
                   j = fst (snd (selectActions (applySettings cfg s) rnd));
                   oc = evaluate cfg (TX_ACTIONS ! i) (JAM_ACTIONS ! j);
                   e = last (history s')
               in o_txReward oc =
                    o_throughputMbps oc - 0.02 * (txMaxPower cfg * p (TX_ACTIONS ! i))
                      - 6 * o_overlapFactor oc
                  \<and> o_jamReward oc =
                      o_jammingIntensity oc * (jamMaxPower cfg * p (JAM_ACTIONS ! j))
                        - 0.08 * o_throughputMbps oc
                  \<and> o_txReward oc =
                      h_throughputMbps e - 0.02 * (txMaxPower cfg * p (h_tx e))
                        - 6 * h_overlapFactor e
                  \<and> o_jamReward oc =
                      h_jammingIntensity e * (jamMaxPower cfg * p (h_jam e))
                        - 0.08 * h_throughputMbps e
                  \<and> q (tx s') = (if freeze cfg then q (tx s)
                                  else td_update (q (tx s)) i (cfg_lr cfg) (o_txReward oc))
                  \<and> q (jam s') = (if \<not> freeze cfg \<and> cfg_jamAdaptive cfg
                                   then td_update (q (jam s)) j (lr (jam s)) (o_jamReward oc)
                                   else q (jam s)))"
proof -
  let ?s' = "tick_result cfg rnd s"
  let ?sel = "selectActions (applySettings cfg s) rnd"
  let ?oc = "evaluate cfg (TX_ACTIONS ! fst ?sel) (JAM_ACTIONS ! fst (snd ?sel))"
  have step: "stepSimulation cfg rnd s = Inr (?s', snd (snd ?sel))"
    using assms by (rule stepSimulation_Inr)
  have h: "h_throughputMbps (last (history ?s')) = o_throughputMbps ?oc"
    "h_overlapFactor (last (history ?s')) = o_overlapFactor ?oc"
    "h_jammingIntensity (last (history ?s')) = o_jammingIntensity ?oc"
    "p (h_tx (last (history ?s'))) = p (TX_ACTIONS ! fst ?sel)"
    "p (h_jam (last (history ?s'))) = p (JAM_ACTIONS ! fst (snd ?sel))"
    by (simp_all add: tick_result_last Let_def)
  have r1: "o_txReward ?oc =
              o_throughputMbps ?oc - 0.02 * (txMaxPower cfg * p (TX_ACTIONS ! fst ?sel))
                - 6 * o_overlapFactor ?oc"
    by (rule evaluate_rewards(1))
  have r2: "o_jamReward ?oc =
              o_jammingIntensity ?oc * (jamMaxPower cfg * p (JAM_ACTIONS ! fst (snd ?sel)))
                - 0.08 * o_throughputMbps ?oc"
    by (rule evaluate_rewards(2))
  have r3: "o_txReward ?oc =
              h_throughputMbps (last (history ?s'))
                - 0.02 * (txMaxPower cfg * p (h_tx (last (history ?s'))))
                - 6 * h_overlapFactor (last (history ?s'))"
    unfolding h by (rule r1)
  have r4: "o_jamReward ?oc =
              h_jammingIntensity (last (history ?s'))
                * (jamMaxPower cfg * p (h_jam (last (history ?s'))))
                - 0.08 * h_throughputMbps (last (history ?s'))"
    unfolding h by (rule r2)
  show ?thesis
    unfolding Let_def
    by (rule exI [of _ ?s'], rule exI [of _ "snd (snd ?sel)"])
      (intro conjI step r1 r2 r3 r4 tick_result_tx_q tick_result_jam_q)
qed

theorem tick_rewards_witness:
  "draws_ok (sconst (1 / 2)) \<and> tables_ok (resetSimulation initial_state)
   \<and> (\<exists>s' rnd'. stepSimulation cfg0 (sconst (1 / 2)) (resetSimulation initial_state)
                    = Inr (s', rnd')
        \<and> o_txReward (evaluate cfg0 (TX_ACTIONS ! 54) (JAM_ACTIONS ! 0)) =
            h_throughputMbps (last (history s'))
              - 0.02 * (txMaxPower cfg0 * p (h_tx (last (history s'))))
              - 6 * h_overlapFactor (last (history s')))"
proof -
  have d: "draws_ok (sconst (1 / 2))"
    by (simp add: draws_ok_def)
  have sel: "fst (selectActions (applySettings cfg0 (resetSimulation initial_state))
                    (sconst (1 / 2))) = 54"
    "fst (snd (selectActions (applySettings cfg0 (resetSimulation initial_state))
                    (sconst (1 / 2)))) = 0"
    by (simp_all add: selectActions_tx selectActions_jam applySettings_simps Let_def
        pickAction_def cfg0_def reset_simps initial_state_def length_TX_ACTIONS
        argMax_replicate)
  from tick_rewards [OF d tables_ok_reset, of cfg0 initial_state]
  show ?thesis
    unfolding Let_def sel using d tables_ok_reset by blast
qed

subsection \<open>SINR\<close>

lemma TX_ACTIONS_power: "a \<in> set TX_ACTIONS \<Longrightarrow> 0 < p a"
  by (auto simp: TX_ACTIONS_def buildActionSpace_def TX_POWER_LEVELS_def)

lemma JAM_ACTIONS_power: "b \<in> set JAM_ACTIONS \<Longrightarrow> 0 < p b"
  by (auto simp: JAM_ACTIONS_def buildJamActions_def JAM_POWER_LEVELS_def)

lemma MOD_EFF_pos: "0 < MOD_EFF m"
  by (cases m) simp_all

lemma dbToLin_pos: "0 < dbToLin db"
  by (simp add: dbToLin_def)

lemma evaluate_sinr:
  "o_sinr (evaluate cfg a b) =
     o_signal (evaluate cfg a b)
       / (o_noisePower (evaluate cfg a b) + o_interference (evaluate cfg a b) + 1)"
  "o_signal (evaluate cfg a b) = txMaxPower cfg * p a * dbToLin (snrDb cfg) * MOD_EFF (mod' a)"
  "o_interference (evaluate cfg a b) = jamMaxPower cfg * p b * o_overlapFactor (evaluate cfg a b)"
  by (simp_all add: evaluate_def Let_def)

lemma scaled_sign:
  fixes x k d :: real
  assumes "0 < k" and "0 < d"
  shows "0 < x * k / d \<longleftrightarrow> 0 < x" and "x * k / d = 0 \<longleftrightarrow> x = 0"
  using assms by (simp_all add: zero_less_divide_iff zero_less_mult_iff)

text \<open>
  C8 (amended): for an action of the transmitter's action space and a tick whose noise power
  and interference are not negative, the denominator of the SINR is at least 1, so never
  zero, and the SINR has the sign of \<open>txMaxPower\<close>: positive exactly when \<open>txMaxPower\<close> is
  positive, and zero exactly when it is zero.
\<close>

theorem sinr_sign:
  assumes "a \<in> set TX_ACTIONS"
    and "0 \<le> o_noisePower (evaluate cfg a b)" and "0 \<le> o_interference (evaluate cfg a b)"
  shows "1 \<le> o_noisePower (evaluate cfg a b) + o_interference (evaluate cfg a b) + 1
       \<and> o_sinr (evaluate cfg a b) =
           o_signal (evaluate cfg a b)
             / (o_noisePower (evaluate cfg a b) + o_interference (evaluate cfg a b) + 1)
       \<and> (0 < o_sinr (evaluate cfg a b) \<longleftrightarrow> 0 < txMaxPower cfg)
       \<and> (o_sinr (evaluate cfg a b) = 0 \<longleftrightarrow> txMaxPower cfg = 0)"
proof -
  let ?d = "o_noisePower (evaluate cfg a b) + o_interference (evaluate cfg a b) + 1"
  let ?k = "p a * dbToLin (snrDb cfg) * MOD_EFF (mod' a)"
  have d: "1 \<le> ?d"
    using assms(2,3) by linarith
  then have dpos: "0 < ?d"
    by linarith
  have k: "0 < ?k"
    by (intro mult_pos_pos TX_ACTIONS_power assms(1) dbToLin_pos MOD_EFF_pos)
  have sig: "o_signal (evaluate cfg a b) = txMaxPower cfg * ?k"
    by (simp add: evaluate_sinr(2))
  have s: "o_sinr (evaluate cfg a b) = txMaxPower cfg * ?k / ?d"
    unfolding evaluate_sinr(1) sig ..
  have "0 < o_sinr (evaluate cfg a b) \<longleftrightarrow> 0 < txMaxPower cfg"
    unfolding s using k dpos by (rule scaled_sign(1))
  moreover have "o_sinr (evaluate cfg a b) = 0 \<longleftrightarrow> txMaxPower cfg = 0"
    unfolding s using k dpos by (rule scaled_sign(2))
  ultimately show ?thesis
    using d evaluate_sinr(1) [of cfg a b] by blast
qed

theorem sinr_sign_witness:
  "TX_ACTIONS ! 0 \<in> set TX_ACTIONS
   \<and> 0 \<le> o_noisePower (evaluate cfg0 (TX_ACTIONS ! 0) (JAM_ACTIONS ! 0))
   \<and> 0 \<le> o_interference (evaluate cfg0 (TX_ACTIONS ! 0) (JAM_ACTIONS ! 0))
   \<and> 0 < o_sinr (evaluate cfg0 (TX_ACTIONS ! 0) (JAM_ACTIONS ! 0))"
proof -
  have a: "TX_ACTIONS ! 0 \<in> set TX_ACTIONS"
    by (simp add: length_TX_ACTIONS)
  have "JAM_ACTIONS ! 0 \<in> set JAM_ACTIONS"
    by (simp add: length_JAM_ACTIONS)
  then have pb: "0 < p (JAM_ACTIONS ! 0)"
    by (rule JAM_ACTIONS_power)
  have n: "0 \<le> o_noisePower (evaluate cfg0 (TX_ACTIONS ! 0) (JAM_ACTIONS ! 0))"
    by (simp add: evaluate_simps cfg0_def)
  have "0 \<le> o_overlapFactor (evaluate cfg0 (TX_ACTIONS ! 0) (JAM_ACTIONS ! 0))"
    by (simp add: evaluate_simps computeOverlap_range)
  then have i: "0 \<le> o_interference (evaluate cfg0 (TX_ACTIONS ! 0) (JAM_ACTIONS ! 0))"
    using pb by (simp add: evaluate_sinr(3) cfg0_def)
  have "0 < txMaxPower cfg0"
    by (simp add: cfg0_def)
  with sinr_sign [OF a n i] a n i show ?thesis
    by blast
qed

text \<open>
  C8 as stated asks for a positive SINR from non-negative noise and interference alone. With
  \<open>txMaxPower = 0\<close> the signal, and with it the SINR, is 0.
\<close>

theorem sinr_zero_counterexample:
  "0 \<le> o_noisePower (evaluate (cfg0\<lparr>txMaxPower := 0\<rparr>) (TX_ACTIONS ! 0) (JAM_ACTIONS ! 0))
   \<and> 0 \<le> o_interference (evaluate (cfg0\<lparr>txMaxPower := 0\<rparr>) (TX_ACTIONS ! 0) (JAM_ACTIONS ! 0))
   \<and> \<not> 0 < o_sinr (evaluate (cfg0\<lparr>txMaxPower := 0\<rparr>) (TX_ACTIONS ! 0) (JAM_ACTIONS ! 0))"
proof -
  let ?c = "cfg0\<lparr>txMaxPower := 0\<rparr>"
  have "JAM_ACTIONS ! 0 \<in> set JAM_ACTIONS"
    by (simp add: length_JAM_ACTIONS)
  then have pb: "0 < p (JAM_ACTIONS ! 0)"
    by (rule JAM_ACTIONS_power)
  have n: "0 \<le> o_noisePower (evaluate ?c (TX_ACTIONS ! 0) (JAM_ACTIONS ! 0))"
    by (simp add: evaluate_simps cfg0_def)
  have "0 \<le> o_overlapFactor (evaluate ?c (TX_ACTIONS ! 0) (JAM_ACTIONS ! 0))"
    by (simp add: evaluate_simps computeOverlap_range)
  then have i: "0 \<le> o_interference (evaluate ?c (TX_ACTIONS ! 0) (JAM_ACTIONS ! 0))"
    using pb by (simp add: evaluate_sinr(3) cfg0_def)
  have "o_sinr (evaluate ?c (TX_ACTIONS ! 0) (JAM_ACTIONS ! 0)) = 0"
    by (simp add: evaluate_sinr(1,2))
  with n i show ?thesis
    by simp
qed

end
